theory Spec2Isabelle
  imports Main "HOL-Library.AList"
begin

section \<open>Data model\<close>

text \<open>
  The signalling server of \<^verbatim>\<open>main.py\<close>: a \<^verbatim>\<open>ConnectionManager\<close> holding two
  dictionaries, and a websocket endpoint that drives it. Client ids and room ids are
  Python strings; a \<^verbatim>\<open>WebSocket\<close> object is identified by a number.
\<close>

type_synonym cid = string
type_synonym rid = string
type_synonym ws = nat

text \<open>JSON values as \<^verbatim>\<open>receive_json\<close> yields them and \<^verbatim>\<open>send_json\<close> takes them.\<close>

datatype json =
    JNull
  | JBool bool
  | JNum int
  | JStr string
  | JArr "json list"
  | JObj "(string \<times> json) list"

type_synonym message = "(string \<times> json) list"

text \<open>The exceptions the modelled code can raise.\<close>

datatype exn =
    WebSocketDisconnect
  | TransportError
  | DecodeError
  | KeyError
  | TypeError
  | AttributeError

text \<open>How a call ends: it returns (every manager method returns \<^verbatim>\<open>None\<close>) or raises.\<close>

datatype outcome = Returned | Raised exn

text \<open>The value of \<^verbatim>\<open>client_info[client_id]\<close>.\<close>

record cinfo =
  room :: rid
  name :: string
  joined_at :: string

text \<open>
  The state: \<^verbatim>\<open>active_rooms\<close> maps a room id to the room's dictionary from client id to
  websocket, kept as an association list in insertion order since the broadcast iterates
  over it; \<^verbatim>\<open>client_info\<close> maps a client id to its record. \<open>outbox\<close> is the
  transport's side: every message a \<^verbatim>\<open>send_json\<close> call has handed over, with the
  websocket it was written to, in order.
\<close>

record world =
  active_rooms :: "rid \<rightharpoonup> (cid \<times> ws) list"
  client_info :: "cid \<rightharpoonup> cinfo"
  outbox :: "(ws \<times> message) list"

text \<open>
  What the code reads from outside during one call: the websockets whose
  \<^verbatim>\<open>send_json\<close> raises, those whose \<^verbatim>\<open>accept\<close> raises, and the successive readings of
  \<^verbatim>\<open>datetime.now().isoformat()\<close>.
\<close>

record env =
  down :: "ws set"
  rejects :: "ws set"
  clock :: "nat \<Rightarrow> string"

definition empty_registry :: world where
  "empty_registry = \<lparr>active_rooms = Map.empty, client_info = Map.empty, outbox = []\<rparr>"

section \<open>ConnectionManager\<close>

definition send_json :: "env \<Rightarrow> ws \<Rightarrow> message \<Rightarrow> world \<Rightarrow> world \<times> outcome" where
  "send_json e websocket m s =
     (if websocket \<in> down e then (s, Raised TransportError)
      else (s\<lparr>outbox := outbox s @ [(websocket, m)]\<rparr>, Returned))"

text \<open>The loop of \<^verbatim>\<open>broadcast_to_room\<close> over the items of the room's dictionary.\<close>

fun fan_out :: "env \<Rightarrow> (cid \<times> ws) list \<Rightarrow> message \<Rightarrow> cid option \<Rightarrow> world \<Rightarrow> world \<times> outcome" where
  "fan_out e [] m exclude_client_id s = (s, Returned)"
| "fan_out e ((client_id, websocket) # rest) m exclude_client_id s =
     (if Some client_id \<noteq> exclude_client_id then
        (case send_json e websocket m s of
           (s', Returned) \<Rightarrow> fan_out e rest m exclude_client_id s'
         | (s', Raised x) \<Rightarrow> (s', Raised x))
      else fan_out e rest m exclude_client_id s)"

definition broadcast_to_room :: "env \<Rightarrow> rid \<Rightarrow> message \<Rightarrow> cid option \<Rightarrow> world \<Rightarrow> world \<times> outcome" where
  "broadcast_to_room e room_id m exclude_client_id s =
     (case active_rooms s room_id of
        None \<Rightarrow> (s, Returned)
      | Some members \<Rightarrow> fan_out e members m exclude_client_id s)"

definition user_joined_msg :: "cid \<Rightarrow> string \<Rightarrow> string \<Rightarrow> message" where
  "user_joined_msg client_id username t =
     [(''type'', JStr ''user_joined''), (''client_id'', JStr client_id),
      (''username'', JStr username), (''timestamp'', JStr t)]"

definition user_left_msg :: "cid \<Rightarrow> string \<Rightarrow> string \<Rightarrow> message" where
  "user_left_msg client_id username t =
     [(''type'', JStr ''user_left''), (''client_id'', JStr client_id),
      (''username'', JStr username), (''timestamp'', JStr t)]"

definition user_entry :: "cid \<Rightarrow> string \<Rightarrow> json" where
  "user_entry c username = JObj [(''client_id'', JStr c), (''username'', JStr username)]"

definition room_joined_msg :: "rid \<Rightarrow> cid \<Rightarrow> json list \<Rightarrow> string \<Rightarrow> message" where
  "room_joined_msg room_id client_id existing t =
     [(''type'', JStr ''room_joined''), (''room_id'', JStr room_id),
      (''client_id'', JStr client_id), (''existing_users'', JArr existing),
      (''timestamp'', JStr t)]"

text \<open>
  The list comprehension of \<^verbatim>\<open>connect\<close>: one entry for each key of the room other than
  the joiner; \<^verbatim>\<open>self.client_info[cid]\<close> raises KeyError for a key without a record.
\<close>

fun existing_users :: "(cid \<rightharpoonup> cinfo) \<Rightarrow> cid \<Rightarrow> cid list \<Rightarrow> exn + json list" where
  "existing_users ci client_id [] = Inr []"
| "existing_users ci client_id (c # cs) =
     (if c \<noteq> client_id then
        (case ci c of
           None \<Rightarrow> Inl KeyError
         | Some info \<Rightarrow>
             (case existing_users ci client_id cs of
                Inl x \<Rightarrow> Inl x
              | Inr us \<Rightarrow> Inr (user_entry c (name info) # us)))
      else existing_users ci client_id cs)"

text \<open>The two stores of \<^verbatim>\<open>connect\<close>, lines 29 to 38.\<close>

definition register :: "env \<Rightarrow> ws \<Rightarrow> cid \<Rightarrow> rid \<Rightarrow> string \<Rightarrow> world \<Rightarrow> world" where
  "register e websocket client_id room_id username s =
     (let members = (case active_rooms s room_id of None \<Rightarrow> [] | Some ms \<Rightarrow> ms)
      in s\<lparr>active_rooms := (active_rooms s)(room_id \<mapsto> AList.update client_id websocket members),
            client_info := (client_info s)(client_id \<mapsto>
               \<lparr>room = room_id, name = username, joined_at = clock e 0\<rparr>)\<rparr>)"

definition connect :: "env \<Rightarrow> ws \<Rightarrow> cid \<Rightarrow> rid \<Rightarrow> string \<Rightarrow> world \<Rightarrow> world \<times> outcome" where
  "connect e websocket client_id room_id username s =
     (if websocket \<in> rejects e then (s, Raised TransportError)
      else
        (case broadcast_to_room e room_id (user_joined_msg client_id username (clock e 1))
                (Some client_id) (register e websocket client_id room_id username s) of
           (s2, Raised x) \<Rightarrow> (s2, Raised x)
         | (s2, Returned) \<Rightarrow>
             (case active_rooms s2 room_id of
                None \<Rightarrow> (s2, Raised KeyError)
              | Some members \<Rightarrow>
                  (case existing_users (client_info s2) client_id (map fst members) of
                     Inl x \<Rightarrow> (s2, Raised x)
                   | Inr existing \<Rightarrow>
                       send_json e websocket
                         (room_joined_msg room_id client_id existing (clock e 2)) s2))))"

text \<open>Lines 83 to 87 of \<^verbatim>\<open>disconnect\<close>: drop the room once it is empty.\<close>

definition cleanup_room :: "rid \<Rightarrow> world \<Rightarrow> world \<times> outcome" where
  "cleanup_room room_id s =
     (case active_rooms s room_id of
        None \<Rightarrow> (s, Raised KeyError)
      | Some members \<Rightarrow>
          (if members = [] then (s\<lparr>active_rooms := (active_rooms s)(room_id := None)\<rparr>, Returned)
           else (s, Returned)))"

definition forget_client :: "cid \<Rightarrow> world \<Rightarrow> world" where
  "forget_client client_id s = s\<lparr>client_info := (client_info s)(client_id := None)\<rparr>"

definition disconnect :: "env \<Rightarrow> cid \<Rightarrow> world \<Rightarrow> world \<times> outcome" where
  "disconnect e client_id s =
     (case client_info s client_id of
        None \<Rightarrow> (s, Returned)
      | Some info \<Rightarrow>
          (case active_rooms s (room info) of
             None \<Rightarrow> (forget_client client_id s, Returned)
           | Some members \<Rightarrow>
               (if map_of members client_id \<noteq> None then
                  (case broadcast_to_room e (room info)
                          (user_left_msg client_id (name info) (clock e 0)) None
                          (s\<lparr>active_rooms := (active_rooms s)(room info \<mapsto>
                                AList.delete client_id members)\<rparr>) of
                     (s2, Raised x) \<Rightarrow> (s2, Raised x)
                   | (s2, Returned) \<Rightarrow>
                       (case cleanup_room (room info) s2 of
                          (s3, Raised x) \<Rightarrow> (s3, Raised x)
                        | (s3, Returned) \<Rightarrow> (forget_client client_id s3, Returned)))
                else (forget_client client_id s, Returned))))"

definition send_to_client :: "env \<Rightarrow> cid \<Rightarrow> message \<Rightarrow> world \<Rightarrow> world \<times> outcome" where
  "send_to_client e client_id m s =
     (case client_info s client_id of
        None \<Rightarrow> (s, Returned)
      | Some info \<Rightarrow>
          (case active_rooms s (room info) of
             None \<Rightarrow> (s, Returned)
           | Some members \<Rightarrow>
               (case map_of members client_id of
                  None \<Rightarrow> (s, Returned)
                | Some websocket \<Rightarrow> send_json e websocket m s)))"

definition relay_message :: "env \<Rightarrow> cid \<Rightarrow> cid \<Rightarrow> message \<Rightarrow> world \<Rightarrow> world \<times> outcome" where
  "relay_message e from_client_id to_client_id m s =
     (case client_info s to_client_id of
        None \<Rightarrow> (s, Returned)
      | Some to_info \<Rightarrow>
          (case client_info s from_client_id of
             None \<Rightarrow> (s, Returned)
           | Some from_info \<Rightarrow>
               (if room from_info = room to_info then
                  send_to_client e to_client_id
                    (AList.update ''from'' (JStr from_client_id) m) s
                else (s, Returned))))"

section \<open>The websocket endpoint\<close>

text \<open>
  \<^verbatim>\<open>receive_json\<close> returns the parsed message or raises: WebSocketDisconnect when the
  peer has gone, another exception for text that is not JSON.
\<close>

datatype received = Data json | Failed exn

datatype phase = Active | Closed

text \<open>\<^verbatim>\<open>data.get(key, default)\<close> on a received object.\<close>

definition dget :: "(string \<times> json) list \<Rightarrow> string \<Rightarrow> json \<Rightarrow> json" where
  "dget kv k dflt = (case map_of kv k of None \<Rightarrow> dflt | Some v \<Rightarrow> v)"

text \<open>Python's truth value of a JSON value, for \<^verbatim>\<open>if to_client_id:\<close>.\<close>

fun truthy :: "json \<Rightarrow> bool" where
  "truthy JNull = False"
| "truthy (JBool b) = b"
| "truthy (JNum n) = (n \<noteq> 0)"
| "truthy (JStr t) = (t \<noteq> [])"
| "truthy (JArr xs) = (xs \<noteq> [])"
| "truthy (JObj kv) = (kv \<noteq> [])"

definition chat_msg :: "cid \<Rightarrow> string \<Rightarrow> json \<Rightarrow> string \<Rightarrow> message" where
  "chat_msg client_id username text t =
     [(''type'', JStr ''chat''), (''from'', JStr client_id), (''username'', JStr username),
      (''message'', text), (''timestamp'', JStr t)]"

definition pong_msg :: "string \<Rightarrow> message" where
  "pong_msg t = [(''type'', JStr ''pong''), (''timestamp'', JStr t)]"

definition signal_msg :: "json \<Rightarrow> json \<Rightarrow> message" where
  "signal_msg sig sig_type =
     [(''type'', JStr ''signal''), (''signal'', sig), (''signal_type'', sig_type)]"

text \<open>
  The body of the \<^verbatim>\<open>while True\<close> loop after \<^verbatim>\<open>receive_json\<close> has returned \<open>d\<close>
  (lines 145 to 173). A target that is not a string is never a key of \<^verbatim>\<open>client_info\<close>;
  a list or an object is unhashable, so the membership test raises TypeError.
\<close>

definition dispatch :: "env \<Rightarrow> ws \<Rightarrow> cid \<Rightarrow> json \<Rightarrow> world \<Rightarrow> world \<times> outcome" where
  "dispatch e websocket client_id d s =
     (case d of
        JObj kv \<Rightarrow>
          (let message_type = dget kv ''type'' JNull in
           if message_type = JStr ''signal'' then
             (let to_client_id = dget kv ''to'' JNull in
              if truthy to_client_id then
                (case to_client_id of
                   JStr t \<Rightarrow>
                     relay_message e client_id t
                       (signal_msg (dget kv ''signal'' JNull) (dget kv ''signal_type'' JNull)) s
                 | JArr xs \<Rightarrow> (s, Raised TypeError)
                 | JObj ys \<Rightarrow> (s, Raised TypeError)
                 | _ \<Rightarrow> (s, Returned))
              else (s, Returned))
           else if message_type = JStr ''chat'' then
             (case client_info s client_id of
                None \<Rightarrow> (s, Raised KeyError)
              | Some info \<Rightarrow>
                  broadcast_to_room e (room info)
                    (chat_msg client_id (name info) (dget kv ''message'' JNull) (clock e 0))
                    None s)
           else if message_type = JStr ''ping'' then
             send_json e websocket (pong_msg (clock e 0)) s
           else (s, Returned))
      | _ \<Rightarrow> (s, Raised AttributeError))"

text \<open>
  Both \<^verbatim>\<open>except\<close> clauses run \<^verbatim>\<open>manager.disconnect(client_id)\<close>; what the registry is
  afterwards does not depend on whether that call itself raised. Where a handler follows
  a call that raised, it is given the environment of that call, so its \<^verbatim>\<open>user_left\<close>
  notice carries that call's first clock reading where the code reads the clock anew.
\<close>

definition on_exception :: "env \<Rightarrow> cid \<Rightarrow> world \<Rightarrow> world" where
  "on_exception e client_id s = fst (disconnect e client_id s)"

text \<open>One turn of the loop: receive, dispatch, and the handlers around both.\<close>

definition active_step :: "env \<Rightarrow> ws \<Rightarrow> cid \<Rightarrow> received \<Rightarrow> world \<Rightarrow> world \<times> phase" where
  "active_step e websocket client_id r s =
     (case r of
        Failed x \<Rightarrow> (on_exception e client_id s, Closed)
      | Data d \<Rightarrow>
          (case dispatch e websocket client_id d s of
             (s', Returned) \<Rightarrow> (s', Active)
           | (s', Raised x) \<Rightarrow> (on_exception e client_id s', Closed)))"

text \<open>
  The first message (lines 131 to 141); \<^verbatim>\<open>data["type"]\<close> raises KeyError on an
  object without that key and TypeError on a value that is not an object, and either
  lands in the handler. \<^verbatim>\<open>connect\<close> is annotated with
  \<^verbatim>\<open>room_id: str, username: str\<close>; a join request whose \<^verbatim>\<open>room_id\<close> or \<^verbatim>\<open>username\<close> is
  present and not a string lies outside this model, and the result is \<open>None\<close> there.
\<close>

definition await_join :: "env \<Rightarrow> ws \<Rightarrow> cid \<Rightarrow> received \<Rightarrow> world \<Rightarrow> (world \<times> phase) option" where
  "await_join e websocket client_id r s =
     (case r of
        Failed x \<Rightarrow> Some (on_exception e client_id s, Closed)
      | Data d \<Rightarrow>
          (case d of
             JObj kv \<Rightarrow>
               (case map_of kv ''type'' of
                  None \<Rightarrow> Some (on_exception e client_id s, Closed)
                | Some t \<Rightarrow>
                    (if t = JStr ''join'' then
                       (case (dget kv ''room_id'' (JStr ''default''),
                              dget kv ''username'' (JStr (''User_'' @ take 6 client_id))) of
                          (JStr room_id, JStr username) \<Rightarrow>
                            Some (case connect e websocket client_id room_id username s of
                                    (s', Returned) \<Rightarrow> (s', Active)
                                  | (s', Raised x) \<Rightarrow> (on_exception e client_id s', Closed))
                        | _ \<Rightarrow> None)
                     else Some (s, Closed)))
           | _ \<Rightarrow> Some (on_exception e client_id s, Closed)))"

section \<open>Sequences of Join and Leave\<close>

text \<open>
  Join is \<^verbatim>\<open>connect\<close> and Leave is \<^verbatim>\<open>disconnect\<close>. A call that raises keeps the stores
  it has made, so a step is the state the call leaves behind, however it ended; every
  step has its own environment.
\<close>

datatype op = Join ws cid rid string | Leave cid

fun step :: "env \<Rightarrow> op \<Rightarrow> world \<Rightarrow> world" where
  "step e (Join websocket client_id room_id username) s =
     fst (connect e websocket client_id room_id username s)"
| "step e (Leave client_id) s = fst (disconnect e client_id s)"

fun run :: "(env \<times> op) list \<Rightarrow> world \<Rightarrow> world" where
  "run [] s = s"
| "run ((e, a) # rest) s = run rest (step e a s)"

text \<open>
  The precondition of Join along a sequence: the client id of every Join has no record in
  \<^verbatim>\<open>client_info\<close> at the moment of the call.
\<close>

fun unregistered_joins :: "(env \<times> op) list \<Rightarrow> world \<Rightarrow> bool" where
  "unregistered_joins [] s = True"
| "unregistered_joins ((e, Join websocket client_id room_id username) # rest) s =
     (client_info s client_id = None \<and>
      unregistered_joins rest (step e (Join websocket client_id room_id username) s))"
| "unregistered_joins ((e, Leave client_id) # rest) s =
     unregistered_joins rest (step e (Leave client_id) s)"

text \<open>Every Leave of the sequence returned, none was cut short by a send that raised.\<close>

fun leaves_returned :: "(env \<times> op) list \<Rightarrow> world \<Rightarrow> bool" where
  "leaves_returned [] s = True"
| "leaves_returned ((e, Leave client_id) # rest) s =
     (snd (disconnect e client_id s) = Returned \<and>
      leaves_returned rest (step e (Leave client_id) s))"
| "leaves_returned ((e, Join websocket client_id room_id username) # rest) s =
     leaves_returned rest (step e (Join websocket client_id room_id username) s)"

section \<open>Notions used in the statements\<close>

text \<open>
  What a fan-out over \<open>members\<close> hands to the transport when every send succeeds: the
  message once for each member other than the excluded one, in the room's order.
\<close>

definition deliveries :: "(cid \<times> ws) list \<Rightarrow> cid option \<Rightarrow> message \<Rightarrow> (ws \<times> message) list" where
  "deliveries members exclude_client_id m =
     map (\<lambda>(c, w). (w, m)) (filter (\<lambda>(c, w). Some c \<noteq> exclude_client_id) members)"

text \<open>
  The pre-existing members as the specification lists them: client id and display name of
  every member of the room other than the joiner.
\<close>

definition roster :: "(cid \<rightharpoonup> cinfo) \<Rightarrow> cid \<Rightarrow> cid list \<Rightarrow> json list" where
  "roster ci client_id cs =
     concat (map (\<lambda>c. case ci c of
                         None \<Rightarrow> []
                       | Some info \<Rightarrow>
                           [JObj [(''client_id'', JStr c), (''username'', JStr (name info))]])
                 (filter (\<lambda>c. c \<noteq> client_id) cs))"

text \<open>The \<^verbatim>\<open>type\<close> field of what arrived, if it arrived and has one.\<close>

fun message_type :: "received \<Rightarrow> json option" where
  "message_type (Data (JObj kv)) = map_of kv ''type''"
| "message_type _ = None"

text \<open>
  A client has left its room: it has no record, or the room its record names is gone or
  does not list it.
\<close>

definition has_left :: "world \<Rightarrow> cid \<Rightarrow> bool" where
  "has_left s c =
     (case client_info s c of
        None \<Rightarrow> True
      | Some info \<Rightarrow>
          (case active_rooms s (room info) of
             None \<Rightarrow> True
           | Some members \<Rightarrow> map_of members c = None))"

text \<open>Every member of a room has a record, and the record names that room.\<close>

definition members_recorded :: "world \<Rightarrow> bool" where
  "members_recorded s =
     (\<forall>r members c. active_rooms s r = Some members \<longrightarrow> c \<in> fst ` set members \<longrightarrow>
        (\<exists>info. client_info s c = Some info \<and> room info = r))"

text \<open>Every client with a record is listed in the room its record names.\<close>

definition records_listed :: "world \<Rightarrow> bool" where
  "records_listed s =
     (\<forall>c info. client_info s c = Some info \<longrightarrow>
        (\<exists>members w. active_rooms s (room info) = Some members \<and> map_of members c = Some w))"

definition rooms_nonempty :: "world \<Rightarrow> bool" where
  "rooms_nonempty s = (\<forall>r members. active_rooms s r = Some members \<longrightarrow> members \<noteq> [])"

text \<open>An environment in which every websocket accepts and sends, the clock reading \<open>t\<close>.\<close>

definition all_up :: "string \<Rightarrow> env" where
  "all_up t = \<lparr>down = {}, rejects = {}, clock = (\<lambda>i. t)\<rparr>"

text \<open>The same, except that \<^verbatim>\<open>send_json\<close> raises on the websockets in \<open>D\<close>.\<close>

definition sends_fail :: "ws set \<Rightarrow> string \<Rightarrow> env" where
  "sends_fail D t = \<lparr>down = D, rejects = {}, clock = (\<lambda>i. t)\<rparr>"

text \<open>
  The scenario of the specification: \<^verbatim>\<open>c1\<close> joins room \<^verbatim>\<open>lobby\<close> as alice on websocket 1,
  then \<^verbatim>\<open>c2\<close> joins it as bob on websocket 2; and the same with \<^verbatim>\<open>c3\<close> joining a second
  room on websocket 3.
\<close>

definition alice_in_lobby :: world where
  "alice_in_lobby = run [(all_up ''t1'', Join 1 ''c1'' ''lobby'' ''alice'')] empty_registry"

definition two_in_lobby :: world where
  "two_in_lobby =
     run [(all_up ''t1'', Join 1 ''c1'' ''lobby'' ''alice''),
          (all_up ''t2'', Join 2 ''c2'' ''lobby'' ''bob'')] empty_registry"

definition lobby_and_den :: world where
  "lobby_and_den = run [(all_up ''t3'', Join 3 ''c3'' ''den'' ''carol'')] two_in_lobby"

section \<open>What a call leaves of the registry\<close>

text \<open>Sending touches the transport only.\<close>

lemma send_json_rooms: "active_rooms (fst (send_json e w m s)) = active_rooms s"
  by (simp add: send_json_def)

lemma send_json_info: "client_info (fst (send_json e w m s)) = client_info s"
  by (simp add: send_json_def)

lemma fan_out_rooms: "active_rooms (fst (fan_out e members m ex s)) = active_rooms s"
  by (induction members arbitrary: s) (auto simp: send_json_def)

lemma fan_out_info: "client_info (fst (fan_out e members m ex s)) = client_info s"
  by (induction members arbitrary: s) (auto simp: send_json_def)

lemma broadcast_rooms: "active_rooms (fst (broadcast_to_room e r m ex s)) = active_rooms s"
  by (simp add: broadcast_to_room_def fan_out_rooms split: option.splits)

lemma broadcast_info: "client_info (fst (broadcast_to_room e r m ex s)) = client_info s"
  by (simp add: broadcast_to_room_def fan_out_info split: option.splits)

lemma broadcast_raised_nonempty:
  "snd (broadcast_to_room e r m ex s) = Raised x \<Longrightarrow> \<exists>members. active_rooms s r = Some members \<and> members \<noteq> []"
  by (cases "active_rooms s r") (auto simp: broadcast_to_room_def)

lemma connect_rooms:
  "active_rooms (fst (connect e w c r u s)) =
     (if w \<in> rejects e then active_rooms s else active_rooms (register e w c r u s))"
proof (cases "w \<in> rejects e")
  case True
  then show ?thesis by (simp add: connect_def)
next
  case False
  obtain s2 out where b: "broadcast_to_room e r (user_joined_msg c u (clock e 1)) (Some c) (register e w c r u s) = (s2, out)"
    by (cases "broadcast_to_room e r (user_joined_msg c u (clock e 1)) (Some c) (register e w c r u s)")
  have "active_rooms s2 = active_rooms (register e w c r u s)"
    using broadcast_rooms [of e r "user_joined_msg c u (clock e 1)" "Some c" "register e w c r u s"] b by simp
  with False b show ?thesis
    by (simp add: connect_def send_json_rooms split: outcome.splits option.splits sum.splits)
qed

lemma connect_info:
  "client_info (fst (connect e w c r u s)) =
     (if w \<in> rejects e then client_info s else client_info (register e w c r u s))"
proof (cases "w \<in> rejects e")
  case True
  then show ?thesis by (simp add: connect_def)
next
  case False
  obtain s2 out where b: "broadcast_to_room e r (user_joined_msg c u (clock e 1)) (Some c) (register e w c r u s) = (s2, out)"
    by (cases "broadcast_to_room e r (user_joined_msg c u (clock e 1)) (Some c) (register e w c r u s)")
  have "client_info s2 = client_info (register e w c r u s)"
    using broadcast_info [of e r "user_joined_msg c u (clock e 1)" "Some c" "register e w c r u s"] b by simp
  with False b show ?thesis
    by (simp add: connect_def send_json_info split: outcome.splits option.splits sum.splits)
qed

text \<open>
  The rooms after \<^verbatim>\<open>disconnect\<close>, whether or not its broadcast raised: a broadcast can
  only raise in a room that still has a member, and such a room is kept anyway.
\<close>

lemma disconnect_member_rooms:
  assumes "client_info s c = Some info" and "active_rooms s (room info) = Some members"
    and "map_of members c \<noteq> None"
  shows "active_rooms (fst (disconnect e c s)) =
     (if AList.delete c members = [] then (active_rooms s)(room info := None)
      else (active_rooms s)(room info \<mapsto> AList.delete c members))"
proof -
  let ?s1 = "s\<lparr>active_rooms := (active_rooms s)(room info \<mapsto> AList.delete c members)\<rparr>"
  let ?b = "broadcast_to_room e (room info) (user_left_msg c (name info) (clock e 0)) None ?s1"
  obtain s2 out where b: "?b = (s2, out)" by (cases ?b)
  have rooms2: "active_rooms s2 = (active_rooms s)(room info \<mapsto> AList.delete c members)"
    using broadcast_rooms [of e "room info" "user_left_msg c (name info) (clock e 0)" None ?s1] b
    by simp
  show ?thesis
  proof (cases out)
    case Returned
    with assms b rooms2 show ?thesis
      by (auto simp: disconnect_def cleanup_room_def forget_client_def)
  next
    case (Raised x)
    then have "snd ?b = Raised x" using b by simp
    from broadcast_raised_nonempty [OF this] have "AList.delete c members \<noteq> []" by simp
    with assms b rooms2 Raised show ?thesis
      by (auto simp: disconnect_def)
  qed
qed

lemma disconnect_rooms:
  "active_rooms (fst (disconnect e c s)) =
     (case client_info s c of
        None \<Rightarrow> active_rooms s
      | Some info \<Rightarrow>
          (case active_rooms s (room info) of
             None \<Rightarrow> active_rooms s
           | Some members \<Rightarrow>
               (if map_of members c \<noteq> None then
                  (if AList.delete c members = [] then (active_rooms s)(room info := None)
                   else (active_rooms s)(room info \<mapsto> AList.delete c members))
                else active_rooms s)))"
proof (cases "client_info s c")
  case None
  then show ?thesis by (simp add: disconnect_def)
next
  case (Some info)
  show ?thesis
  proof (cases "active_rooms s (room info)")
    case None
    with Some show ?thesis by (simp add: disconnect_def forget_client_def)
  next
    case (Some members)
    note room = this
    show ?thesis
    proof (cases "map_of members c")
      case None
      with \<open>client_info s c = Some info\<close> room show ?thesis
        by (simp add: disconnect_def forget_client_def)
    next
      case (Some w)
      then have "map_of members c \<noteq> None" by simp
      from disconnect_member_rooms [OF \<open>client_info s c = Some info\<close> room this]
      show ?thesis using \<open>client_info s c = Some info\<close> room Some by simp
    qed
  qed
qed

lemma disconnect_info_other:
  "c' \<noteq> c \<Longrightarrow> client_info (fst (disconnect e c s)) c' = client_info s c'"
proof (cases "client_info s c")
  case None
  then show ?thesis by (simp add: disconnect_def)
next
  case (Some info)
  assume ne: "c' \<noteq> c"
  let ?s1 = "\<lambda>members. s\<lparr>active_rooms := (active_rooms s)(room info \<mapsto> AList.delete c members)\<rparr>"
  let ?b = "\<lambda>members. broadcast_to_room e (room info) (user_left_msg c (name info) (clock e 0)) None (?s1 members)"
  have "\<And>members. client_info (fst (?b members)) = client_info s"
    using broadcast_info by simp
  then have "\<And>members s2 out. ?b members = (s2, out) \<Longrightarrow> client_info s2 = client_info s"
    by (metis fst_conv)
  with Some ne show ?thesis
    by (auto simp: disconnect_def forget_client_def cleanup_room_def
             split: option.splits prod.splits outcome.splits)
qed

section \<open>Invariants of the registry\<close>

lemma register_rooms:
  "active_rooms (register e w c r u s) =
     (active_rooms s)(r \<mapsto> AList.update c w (case active_rooms s r of None \<Rightarrow> [] | Some ms \<Rightarrow> ms))"
  by (simp add: register_def)

lemma register_info:
  "client_info (register e w c r u s) =
     (client_info s)(c \<mapsto> \<lparr>room = r, name = u, joined_at = clock e 0\<rparr>)"
  by (simp add: register_def)

lemma rooms_nonempty_connect:
  assumes "rooms_nonempty s"
  shows "rooms_nonempty (fst (connect e w c r u s))"
  using assms unfolding rooms_nonempty_def connect_rooms register_rooms
  by auto

lemma rooms_nonempty_disconnect:
  assumes "rooms_nonempty s"
  shows "rooms_nonempty (fst (disconnect e c s))"
  using assms unfolding rooms_nonempty_def disconnect_rooms
  by (auto split: option.splits if_splits)

lemma rooms_nonempty_step: "rooms_nonempty s \<Longrightarrow> rooms_nonempty (step e a s)"
  by (cases a) (simp_all add: rooms_nonempty_connect rooms_nonempty_disconnect)

lemma rooms_nonempty_run: "rooms_nonempty s \<Longrightarrow> rooms_nonempty (run ops s)"
proof (induction ops arbitrary: s)
  case Nil
  then show ?case by simp
next
  case (Cons p ops)
  obtain e a where p: "p = (e, a)" by (cases p)
  from Cons.prems have "rooms_nonempty (step e a s)" by (rule rooms_nonempty_step)
  then have "rooms_nonempty (run ops (step e a s))" by (rule Cons.IH)
  with p show ?case by simp
qed

lemma rooms_nonempty_empty: "rooms_nonempty empty_registry"
  by (simp add: rooms_nonempty_def empty_registry_def)

lemma members_recorded_connect:
  assumes inv: "members_recorded s" and fresh: "client_info s c = None"
  shows "members_recorded (fst (connect e w c r u s))"
proof (cases "w \<in> rejects e")
  case True
  with inv show ?thesis by (simp add: connect_def)
next
  case False
  have nowhere: "\<And>r' ms. active_rooms s r' = Some ms \<Longrightarrow> c \<notin> fst ` set ms"
    using inv fresh unfolding members_recorded_def by fastforce
  show ?thesis
    unfolding members_recorded_def connect_rooms connect_info register_rooms register_info
  proof (intro allI impI)
    fix r' ms c'
    assume room: "(if w \<in> rejects e then active_rooms s
                   else (active_rooms s)(r \<mapsto> AList.update c w
                     (case active_rooms s r of None \<Rightarrow> [] | Some ms \<Rightarrow> ms))) r' = Some ms"
      and mem: "c' \<in> fst ` set ms"
    show "\<exists>info. (if w \<in> rejects e then client_info s
                   else (client_info s)(c \<mapsto> \<lparr>room = r, name = u, joined_at = clock e 0\<rparr>)) c'
                  = Some info \<and> room info = r'"
    proof (cases "r' = r")
      case True
      with room False have ms: "ms = AList.update c w (case active_rooms s r of None \<Rightarrow> [] | Some ms \<Rightarrow> ms)"
        by simp
      show ?thesis
      proof (cases "c' = c")
        case True
        with False \<open>r' = r\<close> show ?thesis by simp
      next
        case ne: False
        from mem ms ne have "c' \<in> fst ` set (case active_rooms s r of None \<Rightarrow> [] | Some ms \<Rightarrow> ms)"
          by (simp add: AList.dom_update)
        then obtain old where "active_rooms s r = Some old" "c' \<in> fst ` set old"
          by (cases "active_rooms s r") auto
        with inv obtain info where "client_info s c' = Some info" "room info = r"
          unfolding members_recorded_def by blast
        with False ne \<open>r' = r\<close> show ?thesis by simp
      qed
    next
      case other: False
      with room False have old: "active_rooms s r' = Some ms" by simp
      with nowhere mem have ne: "c' \<noteq> c" by blast
      from inv old mem obtain info where "client_info s c' = Some info" "room info = r'"
        unfolding members_recorded_def by blast
      with False ne show ?thesis by simp
    qed
  qed
qed

lemma members_recorded_disconnect:
  assumes inv: "members_recorded s"
  shows "members_recorded (fst (disconnect e c s))"
  unfolding members_recorded_def
proof (intro allI impI)
  fix r' ms c'
  assume room: "active_rooms (fst (disconnect e c s)) r' = Some ms" and mem: "c' \<in> fst ` set ms"
  have "active_rooms s r' = Some ms \<or> (\<exists>old. active_rooms s r' = Some old \<and> ms = AList.delete c old)"
    using room unfolding disconnect_rooms
    by (simp split: option.splits if_splits)
  then have sub: "\<exists>old. active_rooms s r' = Some old \<and> c' \<in> fst ` set old"
  proof
    assume "active_rooms s r' = Some ms"
    with mem show ?thesis by blast
  next
    assume "\<exists>old. active_rooms s r' = Some old \<and> ms = AList.delete c old"
    then obtain old where "active_rooms s r' = Some old" "ms = AList.delete c old" by blast
    with mem AList.dom_delete_subset [of c old] show ?thesis by blast
  qed
  then obtain old where old: "active_rooms s r' = Some old" "c' \<in> fst ` set old" by blast
  with inv obtain info where info: "client_info s c' = Some info" "room info = r'"
    unfolding members_recorded_def by blast
  have ne: "c' \<noteq> c"
  proof
    assume eq: "c' = c"
    have "map_of old c \<noteq> None"
      using old(2) eq by (simp add: map_of_eq_None_iff)
    with info old eq have "active_rooms (fst (disconnect e c s)) r' =
        (if AList.delete c old = [] then (active_rooms s)(r' := None)
         else (active_rooms s)(r' \<mapsto> AList.delete c old)) r'"
      unfolding disconnect_rooms by simp
    with room have "ms = AList.delete c old" by (simp split: if_splits)
    with mem eq show False using AList.delete_notin_dom [of c old] by simp
  qed
  with info show "\<exists>info. client_info (fst (disconnect e c s)) c' = Some info \<and> room info = r'"
    by (simp add: disconnect_info_other)
qed

lemma members_recorded_run:
  "members_recorded s \<Longrightarrow> unregistered_joins ops s \<Longrightarrow> members_recorded (run ops s)"
proof (induction ops arbitrary: s)
  case Nil
  then show ?case by simp
next
  case (Cons p ops)
  obtain e a where p: "p = (e, a)" by (cases p)
  show ?case
  proof (cases a)
    case (Join w c r u)
    with Cons.prems p have "client_info s c = None" "unregistered_joins ops (step e a s)"
      by simp_all
    moreover from this Cons.prems(1) Join have "members_recorded (step e a s)"
      by (simp add: members_recorded_connect)
    ultimately have "members_recorded (run ops (step e a s))" by (simp add: Cons.IH)
    with p show ?thesis by simp
  next
    case (Leave c)
    with Cons.prems p have "unregistered_joins ops (step e a s)" by simp
    moreover from Cons.prems(1) Leave have "members_recorded (step e a s)"
      by (simp add: members_recorded_disconnect)
    ultimately have "members_recorded (run ops (step e a s))" by (simp add: Cons.IH)
    with p show ?thesis by simp
  qed
qed

lemma members_recorded_empty: "members_recorded empty_registry"
  by (simp add: members_recorded_def empty_registry_def)

section \<open>Claims about sequences of Join and Leave\<close>

text \<open>
  C4. After any sequence of Join and Leave from the empty registry, whatever the
  transport did during the calls, every room id present in \<^verbatim>\<open>active_rooms\<close> has a
  non-empty member dictionary.
\<close>

theorem no_empty_room:
  "active_rooms (run ops empty_registry) r = Some members \<Longrightarrow> members \<noteq> []"
  using rooms_nonempty_run [OF rooms_nonempty_empty, of ops]
  unfolding rooms_nonempty_def by blast

theorem no_empty_room_witness:
  "active_rooms (run [(all_up ''t1'', Join 1 ''c1'' ''lobby'' ''alice''),
                      (all_up ''t2'', Join 2 ''c2'' ''lobby'' ''bob''),
                      (all_up ''t3'', Join 3 ''c3'' ''den'' ''carol''),
                      (all_up ''t4'', Leave ''c1''),
                      (all_up ''t5'', Leave ''c3'')] empty_registry) ''lobby''
     = Some [(''c2'', 2)] \<and> [(''c2'', 2::nat)] \<noteq> []"
proof -
  have a: "active_rooms (run [(all_up ''t1'', Join 1 ''c1'' ''lobby'' ''alice''),
                      (all_up ''t2'', Join 2 ''c2'' ''lobby'' ''bob''),
                      (all_up ''t3'', Join 3 ''c3'' ''den'' ''carol''),
                      (all_up ''t4'', Leave ''c1''),
                      (all_up ''t5'', Leave ''c3'')] empty_registry) ''lobby''
     = Some [(''c2'', 2)]"
    by code_simp
  from no_empty_room [OF a] a show ?thesis by simp
qed

text \<open>
  C3, as stated, fails: a second Join under a client id that is already registered puts
  the id into the second room and leaves it in the first.
\<close>

theorem one_room_per_client_counterexample:
  "active_rooms (run [(all_up ''t1'', Join 1 ''c'' ''r1'' ''ann''),
                      (all_up ''t2'', Join 2 ''c'' ''r2'' ''ann'')] empty_registry) ''r1''
     = Some [(''c'', 1)] \<and>
   active_rooms (run [(all_up ''t1'', Join 1 ''c'' ''r1'' ''ann''),
                      (all_up ''t2'', Join 2 ''c'' ''r2'' ''ann'')] empty_registry) ''r2''
     = Some [(''c'', 2)]"
  by code_simp

text \<open>
  C3, amended. After any sequence of Join and Leave from the empty registry in which every
  Join uses a client id that has no record at that moment, a client id listed in one room
  is listed in no other room, whatever the transport did during the calls.
\<close>

theorem one_room_per_client:
  assumes "unregistered_joins ops empty_registry"
    and "active_rooms (run ops empty_registry) r1 = Some m1" and "c \<in> fst ` set m1"
    and "active_rooms (run ops empty_registry) r2 = Some m2" and "r2 \<noteq> r1"
  shows "c \<notin> fst ` set m2"
proof
  assume "c \<in> fst ` set m2"
  have inv: "members_recorded (run ops empty_registry)"
    using members_recorded_empty assms(1) by (rule members_recorded_run)
  from inv assms(2,3) obtain i1 where "client_info (run ops empty_registry) c = Some i1" "room i1 = r1"
    unfolding members_recorded_def by blast
  moreover from inv assms(4) \<open>c \<in> fst ` set m2\<close>
  obtain i2 where "client_info (run ops empty_registry) c = Some i2" "room i2 = r2"
    unfolding members_recorded_def by blast
  ultimately show False using assms(5) by simp
qed

theorem one_room_per_client_witness:
  "unregistered_joins [(all_up ''t1'', Join 1 ''c1'' ''lobby'' ''alice''),
                       (all_up ''t2'', Join 2 ''c2'' ''den'' ''bob'')] empty_registry \<and>
   active_rooms (run [(all_up ''t1'', Join 1 ''c1'' ''lobby'' ''alice''),
                      (all_up ''t2'', Join 2 ''c2'' ''den'' ''bob'')] empty_registry) ''lobby''
     = Some [(''c1'', 1)] \<and>
   active_rooms (run [(all_up ''t1'', Join 1 ''c1'' ''lobby'' ''alice''),
                      (all_up ''t2'', Join 2 ''c2'' ''den'' ''bob'')] empty_registry) ''den''
     = Some [(''c2'', 2)] \<and>
   ''c1'' \<notin> fst ` set [(''c2'', 2::nat)]"
proof -
  let ?ops = "[(all_up ''t1'', Join 1 ''c1'' ''lobby'' ''alice''),
               (all_up ''t2'', Join 2 ''c2'' ''den'' ''bob'')]"
  have a: "unregistered_joins ?ops empty_registry" by code_simp
  have b: "active_rooms (run ?ops empty_registry) ''lobby'' = Some [(''c1'', 1)]" by code_simp
  have c: "''c1'' \<in> fst ` set [(''c1'', 1::nat)]" by simp
  have d: "active_rooms (run ?ops empty_registry) ''den'' = Some [(''c2'', 2)]" by code_simp
  have e: "''den'' \<noteq> ''lobby''" by simp
  from one_room_per_client [OF a b c d e] a b d show ?thesis by simp
qed

section \<open>The fan-out\<close>

lemma deliveries_Nil: "deliveries [] ex m = []"
  by (simp add: deliveries_def)

lemma deliveries_Cons:
  "deliveries ((c, w) # rest) ex m =
     (if Some c \<noteq> ex then (w, m) # deliveries rest ex m else deliveries rest ex m)"
  by (simp add: deliveries_def)

lemma fan_out_all_up:
  "\<forall>(c, w) \<in> set members. Some c \<noteq> ex \<longrightarrow> w \<notin> down e \<Longrightarrow>
   fan_out e members m ex s = (s\<lparr>outbox := outbox s @ deliveries members ex m\<rparr>, Returned)"
proof (induction members arbitrary: s)
  case Nil
  then show ?case by (simp add: deliveries_Nil)
next
  case (Cons p members)
  obtain c w where p: "p = (c, w)" by (cases p)
  from Cons.prems have rest: "\<forall>(c, w) \<in> set members. Some c \<noteq> ex \<longrightarrow> w \<notin> down e" by simp
  show ?case
  proof (cases "Some c \<noteq> ex")
    case True
    with Cons.prems p have "w \<notin> down e" by simp
    with True p Cons.IH [OF rest] show ?thesis
      by (simp add: send_json_def deliveries_Cons)
  next
    case False
    with p Cons.IH [OF rest] show ?thesis
      by (simp add: deliveries_Cons)
  qed
qed

lemma fan_out_stops:
  "\<forall>(c', w') \<in> set pre. Some c' \<noteq> ex \<longrightarrow> w' \<notin> down e \<Longrightarrow> Some c \<noteq> ex \<Longrightarrow> w \<in> down e \<Longrightarrow>
   fan_out e (pre @ (c, w) # post) m ex s =
     (s\<lparr>outbox := outbox s @ deliveries pre ex m\<rparr>, Raised TransportError)"
proof (induction pre arbitrary: s)
  case Nil
  then show ?case by (simp add: deliveries_Nil send_json_def)
next
  case (Cons p pre)
  obtain c' w' where p: "p = (c', w')" by (cases p)
  from Cons.prems have rest: "\<forall>(c', w') \<in> set pre. Some c' \<noteq> ex \<longrightarrow> w' \<notin> down e" by simp
  note IH = Cons.IH [OF rest Cons.prems(2,3)]
  show ?case
  proof (cases "Some c' \<noteq> ex")
    case True
    with Cons.prems p have "w' \<notin> down e" by simp
    with True p IH show ?thesis
      by (simp add: send_json_def deliveries_Cons)
  next
    case False
    with p IH show ?thesis
      by (simp add: deliveries_Cons)
  qed
qed

lemma deliveries_member:
  "(w, m) \<in> set (deliveries members ex m') \<longleftrightarrow> m = m' \<and> (\<exists>c. (c, w) \<in> set members \<and> Some c \<noteq> ex)"
  by (auto simp: deliveries_def)

lemma deliveries_update_excluded:
  "deliveries (AList.update c w members) (Some c) m = deliveries members (Some c) m"
  by (induction members) (auto simp: deliveries_def)

lemma deliveries_all: "deliveries members None m = map (\<lambda>(c, w). (w, m)) members"
  by (simp add: deliveries_def)

section \<open>Claims about broadcasts\<close>

text \<open>
  C2, as stated, fails: \<^verbatim>\<open>broadcast_to_room\<close> has no handler around \<^verbatim>\<open>send_json\<close>. With
  \<^verbatim>\<open>c1\<close> and \<^verbatim>\<open>c2\<close> in the room and the websocket of \<^verbatim>\<open>c1\<close> failing, the broadcast raises
  and \<^verbatim>\<open>c2\<close>, whose websocket works, receives nothing.
\<close>

theorem broadcast_isolation_counterexample:
  "snd (broadcast_to_room (sends_fail {1} ''t3'') ''lobby'' (pong_msg ''t3'') None two_in_lobby)
     = Raised TransportError \<and>
   (2, pong_msg ''t3'') \<notin> set (outbox (fst
      (broadcast_to_room (sends_fail {1} ''t3'') ''lobby'' (pong_msg ''t3'') None two_in_lobby)))"
  by code_simp

text \<open>
  C2, amended. \<^verbatim>\<open>broadcast_to_room\<close> serves the members in the order of the room's
  dictionary and stops at the first member whose send fails: the members before it have
  received the message, that member and those after it receive nothing, and the failure
  is raised to the caller.
\<close>

theorem broadcast_stops_at_failed_send:
  assumes "active_rooms s r = Some (pre @ (c, w) # post)"
    and "Some c \<noteq> ex" and "w \<in> down e"
    and "\<forall>(c', w') \<in> set pre. Some c' \<noteq> ex \<longrightarrow> w' \<notin> down e"
  shows "broadcast_to_room e r m ex s =
           (s\<lparr>outbox := outbox s @ deliveries pre ex m\<rparr>, Raised TransportError)"
  using assms(1) fan_out_stops [OF assms(4,2,3)]
  by (simp add: broadcast_to_room_def)

theorem broadcast_stops_at_failed_send_witness:
  "active_rooms lobby_and_den ''lobby'' = Some ([(''c1'', 1)] @ (''c2'', 2) # []) \<and>
   Some ''c2'' \<noteq> None \<and> 2 \<in> down (sends_fail {2} ''t4'') \<and>
   1 \<notin> down (sends_fail {2} ''t4'') \<and>
   broadcast_to_room (sends_fail {2} ''t4'') ''lobby'' (pong_msg ''t4'') None lobby_and_den =
     (lobby_and_den\<lparr>outbox := outbox lobby_and_den @ [(1, pong_msg ''t4'')]\<rparr>,
      Raised TransportError)"
proof -
  have a: "active_rooms lobby_and_den ''lobby'' = Some ([(''c1'', 1)] @ (''c2'', 2) # [])"
    by code_simp
  have b: "Some ''c2'' \<noteq> None" by simp
  have c: "2 \<in> down (sends_fail {2} ''t4'')" by (simp add: sends_fail_def)
  have d: "\<forall>(c', w') \<in> set [(''c1'', 1::nat)]. Some c' \<noteq> None \<longrightarrow> w' \<notin> down (sends_fail {2} ''t4'')"
    by (simp add: sends_fail_def)
  have "deliveries [(''c1'', 1)] None (pong_msg ''t4'') = [(1, pong_msg ''t4'')]"
    by (simp add: deliveries_def)
  moreover have "1 \<notin> down (sends_fail {2} ''t4'')" by (simp add: sends_fail_def)
  ultimately show ?thesis
    using broadcast_stops_at_failed_send [OF a b c d, of "pong_msg ''t4''"] a b c by simp
qed

text \<open>
  C7. A chat message from a registered sender, every websocket of the sender's room
  accepting the send: the chat message goes once to every member of the room the sender's
  record names, in the room's order, and to nobody else; the turn ends with the session
  still active. The sender's own entry in the room is served like the others, and a
  websocket that is only in another room is served nothing.
\<close>

theorem chat_reaches_room:
  assumes "map_of kv ''type'' = Some (JStr ''chat'')"
    and "client_info s c = Some info" and "active_rooms s (room info) = Some members"
    and "\<forall>(c', w) \<in> set members. w \<notin> down e"
    and "m = chat_msg c (name info) (dget kv ''message'' JNull) (clock e 0)"
  shows "active_step e websocket c (Data (JObj kv)) s =
           (s\<lparr>outbox := outbox s @ map (\<lambda>(c', w). (w, m)) members\<rparr>, Active) \<and>
         (map_of members c = Some websocket \<longrightarrow>
            (websocket, m) \<in> set (map (\<lambda>(c', w). (w, m)) members)) \<and>
         (\<forall>r' members' c' w'. r' \<noteq> room info \<longrightarrow> active_rooms s r' = Some members' \<longrightarrow>
            (c', w') \<in> set members' \<longrightarrow> w' \<notin> snd ` set members \<longrightarrow>
            (w', m) \<notin> set (map (\<lambda>(c', w). (w, m)) members))"
proof (intro conjI)
  have up: "\<forall>(c', w) \<in> set members. Some c' \<noteq> None \<longrightarrow> w \<notin> down e"
    using assms(4) by auto
  have "broadcast_to_room e (room info) m None s =
          (s\<lparr>outbox := outbox s @ deliveries members None m\<rparr>, Returned)"
    using assms(3) fan_out_all_up [OF up] by (simp add: broadcast_to_room_def)
  with assms(1,2,5)
  show "active_step e websocket c (Data (JObj kv)) s =
           (s\<lparr>outbox := outbox s @ map (\<lambda>(c', w). (w, m)) members\<rparr>, Active)"
    by (simp add: active_step_def dispatch_def dget_def deliveries_all)
next
  show "map_of members c = Some websocket \<longrightarrow>
          (websocket, m) \<in> set (map (\<lambda>(c', w). (w, m)) members)"
  proof
    assume "map_of members c = Some websocket"
    then have "(c, websocket) \<in> set members" by (rule map_of_SomeD)
    then show "(websocket, m) \<in> set (map (\<lambda>(c', w). (w, m)) members)" by force
  qed
next
  show "\<forall>r' members' c' w'. r' \<noteq> room info \<longrightarrow> active_rooms s r' = Some members' \<longrightarrow>
            (c', w') \<in> set members' \<longrightarrow> w' \<notin> snd ` set members \<longrightarrow>
            (w', m) \<notin> set (map (\<lambda>(c', w). (w, m)) members)"
    by force
qed

theorem chat_reaches_room_witness:
  "map_of [(''type'', JStr ''chat''), (''message'', JStr ''hi'')] ''type'' = Some (JStr ''chat'') \<and>
   client_info lobby_and_den ''c1'' = Some \<lparr>room = ''lobby'', name = ''alice'', joined_at = ''t1''\<rparr> \<and>
   active_rooms lobby_and_den ''lobby'' = Some [(''c1'', 1), (''c2'', 2)] \<and>
   1 \<notin> down (all_up ''t4'') \<and> 2 \<notin> down (all_up ''t4'') \<and>
   active_step (all_up ''t4'') 1 ''c1''
       (Data (JObj [(''type'', JStr ''chat''), (''message'', JStr ''hi'')])) lobby_and_den =
     (lobby_and_den\<lparr>outbox := outbox lobby_and_den @
        [(1, chat_msg ''c1'' ''alice'' (JStr ''hi'') ''t4''),
         (2, chat_msg ''c1'' ''alice'' (JStr ''hi'') ''t4'')]\<rparr>, Active) \<and>
   active_rooms lobby_and_den ''den'' = Some [(''c3'', 3)] \<and>
   (3::nat, chat_msg ''c1'' ''alice'' (JStr ''hi'') ''t4'') \<notin>
     set [(1, chat_msg ''c1'' ''alice'' (JStr ''hi'') ''t4''),
          (2, chat_msg ''c1'' ''alice'' (JStr ''hi'') ''t4'')]"
proof -
  let ?kv = "[(''type'', JStr ''chat''), (''message'', JStr ''hi'')]"
  let ?info = "\<lparr>room = ''lobby'', name = ''alice'', joined_at = ''t1''\<rparr>"
  let ?m = "chat_msg ''c1'' ''alice'' (JStr ''hi'') ''t4''"
  have a: "map_of ?kv ''type'' = Some (JStr ''chat'')" by simp
  have b: "client_info lobby_and_den ''c1'' = Some ?info" by code_simp
  have c: "active_rooms lobby_and_den (room ?info) = Some [(''c1'', 1), (''c2'', 2)]" by code_simp
  have d: "\<forall>(c', w) \<in> set [(''c1'', 1::nat), (''c2'', 2)]. w \<notin> down (all_up ''t4'')"
    by (simp add: all_up_def)
  have e: "?m = chat_msg ''c1'' (name ?info) (dget ?kv ''message'' JNull) (clock (all_up ''t4'') 0)"
    by (simp add: dget_def all_up_def)
  have f: "active_rooms lobby_and_den ''den'' = Some [(''c3'', 3)]" by code_simp
  have g: "''den'' \<noteq> room ?info" by simp
  from chat_reaches_room [OF a b c d e, of 1] a b c d f
  show ?thesis by simp
qed

section \<open>Claims about the relay\<close>

text \<open>
  C1. \<^verbatim>\<open>relay_message\<close> from \<open>a\<close> to \<open>b\<close>. If both have a record and the records name the
  same room, the payload with \<^verbatim>\<open>from\<close> set to \<open>a\<close> is handed once to the websocket
  that room lists for \<open>b\<close>, provided that websocket accepts the send, and to no other.
  In every other case (one of them without a record, or records naming different rooms)
  the call returns without sending anything and without raising.
\<close>

theorem relay_same_room_only:
  "(client_info s a = Some ia \<longrightarrow> client_info s b = Some ib \<longrightarrow> room ia = room ib \<longrightarrow>
      active_rooms s (room ib) = Some members \<longrightarrow> map_of members b = Some wb \<longrightarrow>
      wb \<notin> down e \<longrightarrow>
        relay_message e a b payload s =
          (s\<lparr>outbox := outbox s @ [(wb, AList.update ''from'' (JStr a) payload)]\<rparr>, Returned) \<and>
        map_of (AList.update ''from'' (JStr a) payload) ''from'' = Some (JStr a)) \<and>
   (client_info s a = None \<or> client_info s b = None \<or>
      (\<exists>ia ib. client_info s a = Some ia \<and> client_info s b = Some ib \<and> room ia \<noteq> room ib) \<longrightarrow>
        relay_message e a b payload s = (s, Returned))"
proof (intro conjI impI)
  assume "client_info s a = Some ia" "client_info s b = Some ib" "room ia = room ib"
    "active_rooms s (room ib) = Some members" "map_of members b = Some wb" "wb \<notin> down e"
  then show "relay_message e a b payload s =
          (s\<lparr>outbox := outbox s @ [(wb, AList.update ''from'' (JStr a) payload)]\<rparr>, Returned)"
    by (simp add: relay_message_def send_to_client_def send_json_def)
next
  show "map_of (AList.update ''from'' (JStr a) payload) ''from'' = Some (JStr a)"
    by (simp add: AList.update_conv')
next
  assume "client_info s a = None \<or> client_info s b = None \<or>
      (\<exists>ia ib. client_info s a = Some ia \<and> client_info s b = Some ib \<and> room ia \<noteq> room ib)"
  then show "relay_message e a b payload s = (s, Returned)"
    by (auto simp: relay_message_def split: option.splits)
qed

theorem relay_same_room_only_witness:
  "client_info lobby_and_den ''c1'' = Some \<lparr>room = ''lobby'', name = ''alice'', joined_at = ''t1''\<rparr> \<and>
   client_info lobby_and_den ''c2'' = Some \<lparr>room = ''lobby'', name = ''bob'', joined_at = ''t2''\<rparr> \<and>
   active_rooms lobby_and_den ''lobby'' = Some [(''c1'', 1), (''c2'', 2)] \<and>
   map_of [(''c1'', 1::nat), (''c2'', 2)] ''c2'' = Some 2 \<and>
   2 \<notin> down (all_up ''t4'') \<and>
   relay_message (all_up ''t4'') ''c1'' ''c2'' (signal_msg (JStr ''offer-blob'') (JStr ''offer''))
       lobby_and_den =
     (lobby_and_den\<lparr>outbox := outbox lobby_and_den @
        [(2, [(''type'', JStr ''signal''), (''signal'', JStr ''offer-blob''),
              (''signal_type'', JStr ''offer''), (''from'', JStr ''c1'')])]\<rparr>, Returned) \<and>
   client_info lobby_and_den ''c3'' = Some \<lparr>room = ''den'', name = ''carol'', joined_at = ''t3''\<rparr> \<and>
   relay_message (all_up ''t4'') ''c1'' ''c3'' (signal_msg (JStr ''offer-blob'') (JStr ''offer''))
       lobby_and_den = (lobby_and_den, Returned) \<and>
   client_info lobby_and_den ''c9'' = None \<and>
   relay_message (all_up ''t4'') ''c1'' ''c9'' (signal_msg (JStr ''offer-blob'') (JStr ''offer''))
       lobby_and_den = (lobby_and_den, Returned)"
proof -
  let ?i1 = "\<lparr>room = ''lobby'', name = ''alice'', joined_at = ''t1''\<rparr>"
  let ?i2 = "\<lparr>room = ''lobby'', name = ''bob'', joined_at = ''t2''\<rparr>"
  let ?i3 = "\<lparr>room = ''den'', name = ''carol'', joined_at = ''t3''\<rparr>"
  let ?p = "signal_msg (JStr ''offer-blob'') (JStr ''offer'')"
  have a: "client_info lobby_and_den ''c1'' = Some ?i1" by code_simp
  have b: "client_info lobby_and_den ''c2'' = Some ?i2" by code_simp
  have c: "active_rooms lobby_and_den ''lobby'' = Some [(''c1'', 1), (''c2'', 2)]" by code_simp
  have d: "client_info lobby_and_den ''c3'' = Some ?i3" by code_simp
  have f: "client_info lobby_and_den ''c9'' = None" by code_simp
  have up: "2 \<notin> down (all_up ''t4'')" by (simp add: all_up_def)
  have upd: "AList.update ''from'' (JStr ''c1'') ?p =
      [(''type'', JStr ''signal''), (''signal'', JStr ''offer-blob''),
       (''signal_type'', JStr ''offer''), (''from'', JStr ''c1'')]"
    by (simp add: signal_msg_def)
  have g: "\<exists>ia ib. client_info lobby_and_den ''c1'' = Some ia \<and>
      client_info lobby_and_den ''c3'' = Some ib \<and> room ia \<noteq> room ib"
    using a d by simp
  from relay_same_room_only [of lobby_and_den "''c1''" ?i1 "''c2''" ?i2
         "[(''c1'', 1), (''c2'', 2)]" 2 "all_up ''t4''" ?p]
       relay_same_room_only [of lobby_and_den "''c1''" ?i1 "''c3''" ?i3
         "[(''c1'', 1), (''c2'', 2)]" 2 "all_up ''t4''" ?p]
       relay_same_room_only [of lobby_and_den "''c1''" ?i1 "''c9''" ?i3
         "[(''c1'', 1), (''c2'', 2)]" 2 "all_up ''t4''" ?p]
       a b c d f g up upd
  show ?thesis by simp
qed

text \<open>
  C10. A client with a record, listed on websocket \<open>w\<close> in the room its record names,
  relays to itself: the payload with \<^verbatim>\<open>from\<close> set to its own id is handed to \<open>w\<close>,
  provided \<open>w\<close> accepts the send.
\<close>

theorem relay_to_self:
  assumes "client_info s c = Some info" and "active_rooms s (room info) = Some members"
    and "map_of members c = Some w" and "w \<notin> down e"
  shows "relay_message e c c payload s =
           (s\<lparr>outbox := outbox s @ [(w, AList.update ''from'' (JStr c) payload)]\<rparr>, Returned) \<and>
         map_of (AList.update ''from'' (JStr c) payload) ''from'' = Some (JStr c)"
  using assms
  by (simp add: relay_message_def send_to_client_def send_json_def AList.update_conv')

theorem relay_to_self_witness:
  "client_info two_in_lobby ''c1'' = Some \<lparr>room = ''lobby'', name = ''alice'', joined_at = ''t1''\<rparr> \<and>
   active_rooms two_in_lobby ''lobby'' = Some [(''c1'', 1), (''c2'', 2)] \<and>
   map_of [(''c1'', 1::nat), (''c2'', 2)] ''c1'' = Some 1 \<and>
   1 \<notin> down (all_up ''t3'') \<and>
   relay_message (all_up ''t3'') ''c1'' ''c1'' (signal_msg (JStr ''blob'') (JStr ''offer''))
       two_in_lobby =
     (two_in_lobby\<lparr>outbox := outbox two_in_lobby @
        [(1, [(''type'', JStr ''signal''), (''signal'', JStr ''blob''),
              (''signal_type'', JStr ''offer''), (''from'', JStr ''c1'')])]\<rparr>, Returned)"
proof -
  let ?i1 = "\<lparr>room = ''lobby'', name = ''alice'', joined_at = ''t1''\<rparr>"
  have a: "client_info two_in_lobby ''c1'' = Some ?i1" by code_simp
  have b: "active_rooms two_in_lobby (room ?i1) = Some [(''c1'', 1), (''c2'', 2)]" by code_simp
  have c: "map_of [(''c1'', 1::nat), (''c2'', 2)] ''c1'' = Some 1" by simp
  have d: "1 \<notin> down (all_up ''t3'')" by (simp add: all_up_def)
  have upd: "AList.update ''from'' (JStr ''c1'') (signal_msg (JStr ''blob'') (JStr ''offer'')) =
      [(''type'', JStr ''signal''), (''signal'', JStr ''blob''),
       (''signal_type'', JStr ''offer''), (''from'', JStr ''c1'')]"
    by (simp add: signal_msg_def)
  from relay_to_self [OF a b c d, of "signal_msg (JStr ''blob'') (JStr ''offer'')"] a b c d upd
  show ?thesis by simp
qed

section \<open>Claims about Leave\<close>

lemma disconnect_info_self:
  "client_info (fst (disconnect e c s)) c = None \<or>
   client_info (fst (disconnect e c s)) c = client_info s c"
proof (cases "client_info s c")
  case None
  then show ?thesis by (simp add: disconnect_def)
next
  case (Some info)
  let ?s1 = "\<lambda>members. s\<lparr>active_rooms := (active_rooms s)(room info \<mapsto> AList.delete c members)\<rparr>"
  let ?b = "\<lambda>members. broadcast_to_room e (room info) (user_left_msg c (name info) (clock e 0)) None (?s1 members)"
  have "\<And>members. client_info (fst (?b members)) = client_info s"
    using broadcast_info by simp
  then have "\<And>members s2 out. ?b members = (s2, out) \<Longrightarrow> client_info s2 = client_info s"
    by (metis fst_conv)
  with Some show ?thesis
    by (auto simp: disconnect_def forget_client_def cleanup_room_def
             split: option.splits prod.splits outcome.splits)
qed

lemma disconnect_has_left: "has_left (fst (disconnect e c s)) c"
proof (cases "client_info (fst (disconnect e c s)) c")
  case None
  then show ?thesis by (simp add: has_left_def)
next
  case (Some info)
  with disconnect_info_self [of e c s] have old: "client_info s c = Some info" by simp
  have "case active_rooms (fst (disconnect e c s)) (room info) of
          None \<Rightarrow> True | Some members \<Rightarrow> map_of members c = None"
    unfolding disconnect_rooms using old
    by (simp add: AList.delete_conv' split: option.splits)
  with Some show ?thesis by (simp add: has_left_def)
qed

lemma has_left_disconnect:
  "has_left s c \<Longrightarrow> disconnect e c s = (forget_client c s, Returned)"
  by (auto simp: has_left_def disconnect_def forget_client_def fun_upd_idem split: option.splits)

lemma disconnect_all_up:
  assumes "client_info s c = Some info" and "active_rooms s (room info) = Some members"
    and "map_of members c \<noteq> None"
    and "\<forall>(c', w) \<in> set (AList.delete c members). w \<notin> down e"
  shows "outbox (fst (disconnect e c s)) =
           outbox s @ deliveries (AList.delete c members) None
                        (user_left_msg c (name info) (clock e 0))"
    and "snd (disconnect e c s) = Returned"
proof -
  let ?s1 = "s\<lparr>active_rooms := (active_rooms s)(room info \<mapsto> AList.delete c members)\<rparr>"
  let ?m = "user_left_msg c (name info) (clock e 0)"
  have up: "\<forall>(c', w) \<in> set (AList.delete c members). Some c' \<noteq> None \<longrightarrow> w \<notin> down e"
    using assms(4) by auto
  have b: "broadcast_to_room e (room info) ?m None ?s1 =
             (?s1\<lparr>outbox := outbox ?s1 @ deliveries (AList.delete c members) None ?m\<rparr>, Returned)"
    using fan_out_all_up [OF up] by (simp add: broadcast_to_room_def)
  from assms(1-3) b
  show "outbox (fst (disconnect e c s)) = outbox s @ deliveries (AList.delete c members) None ?m"
    by (auto simp: disconnect_def cleanup_room_def forget_client_def)
  from assms(1-3) b show "snd (disconnect e c s) = Returned"
    by (auto simp: disconnect_def cleanup_room_def forget_client_def)
qed

text \<open>
  C5. \<^verbatim>\<open>disconnect\<close> of a client id without a record returns at once: nothing is sent,
  nothing changes, nothing is raised. A second \<^verbatim>\<open>disconnect\<close> of the same id, after a
  first one that ended in whatever way, returns without raising, sends nothing and leaves
  the rooms as they are; all it can do is drop a record the first call left behind. The
  first \<^verbatim>\<open>disconnect\<close> of a member, the websockets of the remaining members accepting the
  send, returns and hands \<^verbatim>\<open>user_left\<close> once to each remaining member: one broadcast in
  all.
\<close>

theorem leave_idempotent:
  "(client_info s c = None \<longrightarrow> disconnect e c s = (s, Returned)) \<and>
   disconnect e' c (fst (disconnect e c s)) =
     (forget_client c (fst (disconnect e c s)), Returned) \<and>
   outbox (fst (disconnect e' c (fst (disconnect e c s)))) = outbox (fst (disconnect e c s)) \<and>
   active_rooms (fst (disconnect e' c (fst (disconnect e c s)))) =
     active_rooms (fst (disconnect e c s)) \<and>
   (client_info s c = Some info \<longrightarrow> active_rooms s (room info) = Some members \<longrightarrow>
    map_of members c \<noteq> None \<longrightarrow> (\<forall>(c', w) \<in> set (AList.delete c members). w \<notin> down e) \<longrightarrow>
      snd (disconnect e c s) = Returned \<and>
      outbox (fst (disconnect e' c (fst (disconnect e c s)))) =
        outbox s @ deliveries (AList.delete c members) None
                     (user_left_msg c (name info) (clock e 0)))"
proof -
  have second: "disconnect e' c (fst (disconnect e c s)) =
      (forget_client c (fst (disconnect e c s)), Returned)"
    using disconnect_has_left by (rule has_left_disconnect)
  have first: "client_info s c = None \<longrightarrow> disconnect e c s = (s, Returned)"
    by (simp add: disconnect_def)
  have quiet: "outbox (fst (disconnect e' c (fst (disconnect e c s)))) =
      outbox (fst (disconnect e c s))"
    by (simp add: second forget_client_def)
  have rooms: "active_rooms (fst (disconnect e' c (fst (disconnect e c s)))) =
      active_rooms (fst (disconnect e c s))"
    by (simp add: second forget_client_def)
  have once: "client_info s c = Some info \<longrightarrow> active_rooms s (room info) = Some members \<longrightarrow>
    map_of members c \<noteq> None \<longrightarrow> (\<forall>(c', w) \<in> set (AList.delete c members). w \<notin> down e) \<longrightarrow>
      snd (disconnect e c s) = Returned \<and>
      outbox (fst (disconnect e' c (fst (disconnect e c s)))) =
        outbox s @ deliveries (AList.delete c members) None
                     (user_left_msg c (name info) (clock e 0))"
    using disconnect_all_up [of s c info members e] quiet by simp
  from first second quiet rooms once show ?thesis by blast
qed

theorem leave_idempotent_witness:
  "client_info two_in_lobby ''c9'' = None \<and>
   disconnect (all_up ''t3'') ''c9'' two_in_lobby = (two_in_lobby, Returned) \<and>
   client_info two_in_lobby ''c2'' = Some \<lparr>room = ''lobby'', name = ''bob'', joined_at = ''t2''\<rparr> \<and>
   active_rooms two_in_lobby ''lobby'' = Some [(''c1'', 1), (''c2'', 2)] \<and>
   map_of [(''c1'', 1::nat), (''c2'', 2)] ''c2'' \<noteq> None \<and>
   AList.delete ''c2'' [(''c1'', 1::nat), (''c2'', 2)] = [(''c1'', 1)] \<and>
   1 \<notin> down (all_up ''t3'') \<and>
   snd (disconnect (all_up ''t3'') ''c2'' two_in_lobby) = Returned \<and>
   outbox (fst (disconnect (all_up ''t4'') ''c2''
             (fst (disconnect (all_up ''t3'') ''c2'' two_in_lobby)))) =
     outbox two_in_lobby @ [(1, user_left_msg ''c2'' ''bob'' ''t3'')]"
proof -
  let ?i2 = "\<lparr>room = ''lobby'', name = ''bob'', joined_at = ''t2''\<rparr>"
  have a: "client_info two_in_lobby ''c9'' = None" by code_simp
  have b: "client_info two_in_lobby ''c2'' = Some ?i2" by code_simp
  have c: "active_rooms two_in_lobby (room ?i2) = Some [(''c1'', 1), (''c2'', 2)]" by code_simp
  have d: "map_of [(''c1'', 1::nat), (''c2'', 2)] ''c2'' \<noteq> None" by simp
  have f: "\<forall>(c', w) \<in> set (AList.delete ''c2'' [(''c1'', 1::nat), (''c2'', 2)]). w \<notin> down (all_up ''t3'')"
    by (simp add: all_up_def)
  have g: "deliveries (AList.delete ''c2'' [(''c1'', 1::nat), (''c2'', 2)]) None
             (user_left_msg ''c2'' (name ?i2) (clock (all_up ''t3'') 0)) =
           [(1, user_left_msg ''c2'' ''bob'' ''t3'')]"
    by (simp add: deliveries_def all_up_def)
  have "client_info two_in_lobby ''c9'' = None \<longrightarrow>
          disconnect (all_up ''t3'') ''c9'' two_in_lobby = (two_in_lobby, Returned)"
    using leave_idempotent [of two_in_lobby "''c9''" "all_up ''t3''" "all_up ''t4''" ?i2 "[]"]
    by blast
  with a have first: "disconnect (all_up ''t3'') ''c9'' two_in_lobby = (two_in_lobby, Returned)"
    by blast
  have "client_info two_in_lobby ''c2'' = Some ?i2 \<longrightarrow>
        active_rooms two_in_lobby (room ?i2) = Some [(''c1'', 1), (''c2'', 2)] \<longrightarrow>
        map_of [(''c1'', 1::nat), (''c2'', 2)] ''c2'' \<noteq> None \<longrightarrow>
        (\<forall>(c', w) \<in> set (AList.delete ''c2'' [(''c1'', 1::nat), (''c2'', 2)]).
            w \<notin> down (all_up ''t3'')) \<longrightarrow>
        snd (disconnect (all_up ''t3'') ''c2'' two_in_lobby) = Returned \<and>
        outbox (fst (disconnect (all_up ''t4'') ''c2''
                  (fst (disconnect (all_up ''t3'') ''c2'' two_in_lobby)))) =
          outbox two_in_lobby @ deliveries (AList.delete ''c2'' [(''c1'', 1::nat), (''c2'', 2)]) None
             (user_left_msg ''c2'' (name ?i2) (clock (all_up ''t3'') 0))"
    using leave_idempotent [of two_in_lobby "''c2''" "all_up ''t3''" "all_up ''t4''" ?i2
                               "[(''c1'', 1), (''c2'', 2)]"]
    by blast
  with b c d f have "snd (disconnect (all_up ''t3'') ''c2'' two_in_lobby) = Returned \<and>
        outbox (fst (disconnect (all_up ''t4'') ''c2''
                  (fst (disconnect (all_up ''t3'') ''c2'' two_in_lobby)))) =
          outbox two_in_lobby @ deliveries (AList.delete ''c2'' [(''c1'', 1::nat), (''c2'', 2)]) None
             (user_left_msg ''c2'' (name ?i2) (clock (all_up ''t3'') 0))"
    by blast
  then have twice: "snd (disconnect (all_up ''t3'') ''c2'' two_in_lobby) = Returned \<and>
        outbox (fst (disconnect (all_up ''t4'') ''c2''
                  (fst (disconnect (all_up ''t3'') ''c2'' two_in_lobby)))) =
          outbox two_in_lobby @ [(1, user_left_msg ''c2'' ''bob'' ''t3'')]"
    unfolding g .
  have c': "active_rooms two_in_lobby ''lobby'' = Some [(''c1'', 1), (''c2'', 2)]"
    using c by simp
  have del: "AList.delete ''c2'' [(''c1'', 1::nat), (''c2'', 2)] = [(''c1'', 1)]" by simp
  have up: "1 \<notin> down (all_up ''t3'')" by (simp add: all_up_def)
  from a first b c' d del up twice show ?thesis by blast
qed

section \<open>Claims about Join\<close>

lemma update_other_entries:
  "(c, w) \<in> set (AList.update k v al) \<Longrightarrow> c \<noteq> k \<Longrightarrow> (c, w) \<in> set al"
  by (induction al) (auto split: if_splits)

lemma roster_Nil: "roster ci b [] = []"
  by (simp add: roster_def)

lemma roster_Cons:
  "roster ci b (c # cs) =
     (if c \<noteq> b then
        (case ci c of
           None \<Rightarrow> []
         | Some info \<Rightarrow> [JObj [(''client_id'', JStr c), (''username'', JStr (name info))]]) @
        roster ci b cs
      else roster ci b cs)"
  by (simp add: roster_def)

lemma existing_users_roster:
  "\<forall>c \<in> set cs. c \<noteq> b \<longrightarrow> ci c \<noteq> None \<Longrightarrow> existing_users ci b cs = Inr (roster ci b cs)"
  by (induction cs) (auto simp: roster_Nil roster_Cons user_entry_def)

lemma roster_cong:
  "\<forall>c \<in> set cs. c \<noteq> b \<longrightarrow> ci c = ci' c \<Longrightarrow> roster ci b cs = roster ci' b cs"
  by (induction cs) (auto simp: roster_Nil roster_Cons)

lemma roster_update_keys:
  "roster ci b (map fst (AList.update b w ms)) = roster ci b (map fst ms)"
  by (induction ms) (auto simp: roster_Nil roster_Cons)

lemma roster_member:
  "a \<in> set cs \<Longrightarrow> a \<noteq> b \<Longrightarrow> ci a = Some ia \<Longrightarrow>
   JObj [(''client_id'', JStr a), (''username'', JStr (name ia))] \<in> set (roster ci b cs)"
  by (induction cs) (auto simp: roster_Nil roster_Cons)

lemma roster_excludes:
  "JObj kv \<in> set (roster ci b cs) \<Longrightarrow> map_of kv ''client_id'' \<noteq> Some (JStr b)"
  by (induction cs) (auto simp: roster_Nil roster_Cons split: option.splits if_splits)

lemma connect_all_up:
  assumes acc: "websocket \<notin> rejects e" and up: "websocket \<notin> down e"
    and room: "active_rooms s r = Some members"
    and others: "\<forall>(c, w) \<in> set members. c \<noteq> b \<longrightarrow> w \<notin> down e \<and> client_info s c \<noteq> None"
  shows "connect e websocket b r u s =
           ((register e websocket b r u s)
              \<lparr>outbox := outbox s @ deliveries members (Some b) (user_joined_msg b u (clock e 1)) @
                 [(websocket, room_joined_msg r b (roster (client_info s) b (map fst members))
                                (clock e 2))]\<rparr>, Returned)"
proof -
  let ?s1 = "register e websocket b r u s"
  let ?ms = "AList.update b websocket members"
  let ?n = "user_joined_msg b u (clock e 1)"
  let ?ci = "(client_info s)(b \<mapsto> \<lparr>room = r, name = u, joined_at = clock e 0\<rparr>)"
  have rooms1: "active_rooms ?s1 r = Some ?ms" using room by (simp add: register_def)
  have info1: "client_info ?s1 = ?ci" by (simp add: register_def)
  have out1: "outbox ?s1 = outbox s" by (simp add: register_def Let_def)
  have up1: "\<forall>(c, w) \<in> set ?ms. Some c \<noteq> Some b \<longrightarrow> w \<notin> down e"
    using others update_other_entries [of _ _ b websocket members] by fastforce
  have b: "broadcast_to_room e r ?n (Some b) ?s1 =
             (?s1\<lparr>outbox := outbox s @ deliveries members (Some b) ?n\<rparr>, Returned)"
    using rooms1 fan_out_all_up [OF up1, of ?n ?s1]
    by (simp add: broadcast_to_room_def out1 deliveries_update_excluded)
  let ?s2 = "?s1\<lparr>outbox := outbox s @ deliveries members (Some b) ?n\<rparr>"
  have rooms2: "active_rooms ?s2 r = Some ?ms" using rooms1 by simp
  have info2: "client_info ?s2 = ?ci" using info1 by simp
  have rec: "\<forall>c \<in> set (map fst ?ms). c \<noteq> b \<longrightarrow> ?ci c \<noteq> None"
  proof (intro ballI impI)
    fix c assume "c \<in> set (map fst ?ms)" "c \<noteq> b"
    then obtain w where "(c, w) \<in> set ?ms" by auto
    then have "(c, w) \<in> set members" using \<open>c \<noteq> b\<close> by (rule update_other_entries)
    with others \<open>c \<noteq> b\<close> show "?ci c \<noteq> None" by auto
  qed
  have "roster ?ci b (map fst ?ms) = roster ?ci b (map fst members)"
    by (rule roster_update_keys)
  also have "\<dots> = roster (client_info s) b (map fst members)"
    by (rule roster_cong) simp
  finally have same: "roster ?ci b (map fst ?ms) = roster (client_info s) b (map fst members)" .
  have "existing_users ?ci b (map fst ?ms) = Inr (roster ?ci b (map fst ?ms))"
    using rec by (rule existing_users_roster)
  then have ex: "existing_users ?ci b (map fst ?ms) =
      Inr (roster (client_info s) b (map fst members))"
    by (simp only: same)
  show ?thesis
    unfolding connect_def using acc up b rooms2 info2 ex
    by (simp add: send_json_def)
qed

text \<open>
  C6. \<^verbatim>\<open>connect\<close> of \<open>b\<close> on a new websocket to a room that lists \<open>a\<close>, every member
  other than \<open>b\<close> having a record and a websocket that accepts the send. The call
  returns, with \<open>b\<close> stored in the room and in \<^verbatim>\<open>client_info\<close>. The notice
  \<^verbatim>\<open>{type: user_joined, client_id: b, username: u, timestamp}\<close> goes once to each
  member other than \<open>b\<close>, among them \<open>a\<close>, and to nobody who is not such a member. Then
  \<^verbatim>\<open>{type: room_joined, room_id: r, client_id: b, existing_users, timestamp}\<close> goes to
  the new websocket, its \<^verbatim>\<open>existing_users\<close> holding \<^verbatim>\<open>{client_id, username}\<close> for the
  members other than \<open>b\<close>, among them the id and display name of \<open>a\<close>, and no entry
  with the id of \<open>b\<close>.
\<close>

theorem join_notifies_and_lists:
  assumes "websocket \<notin> rejects e" and "websocket \<notin> down e"
    and "active_rooms s r = Some members"
    and "map_of members a = Some wa" and "client_info s a = Some ia" and "a \<noteq> b"
    and "\<forall>(c, w) \<in> set members. c \<noteq> b \<longrightarrow> w \<notin> down e \<and> client_info s c \<noteq> None"
    and "n = [(''type'', JStr ''user_joined''), (''client_id'', JStr b),
              (''username'', JStr u), (''timestamp'', JStr (clock e 1))]"
  shows "connect e websocket b r u s =
           (s\<lparr>active_rooms := (active_rooms s)(r \<mapsto> AList.update b websocket members),
              client_info := (client_info s)(b \<mapsto>
                 \<lparr>room = r, name = u, joined_at = clock e 0\<rparr>),
              outbox := outbox s @ deliveries members (Some b) n @
                 [(websocket,
                   [(''type'', JStr ''room_joined''), (''room_id'', JStr r),
                    (''client_id'', JStr b),
                    (''existing_users'', JArr (roster (client_info s) b (map fst members))),
                    (''timestamp'', JStr (clock e 2))])]\<rparr>, Returned) \<and>
         (wa, n) \<in> set (deliveries members (Some b) n) \<and>
         (\<forall>w. (w, n) \<in> set (deliveries members (Some b) n) \<longrightarrow>
              (\<exists>c. c \<noteq> b \<and> (c, w) \<in> set members)) \<and>
         JObj [(''client_id'', JStr a), (''username'', JStr (name ia))]
           \<in> set (roster (client_info s) b (map fst members)) \<and>
         (\<forall>kv. JObj kv \<in> set (roster (client_info s) b (map fst members)) \<longrightarrow>
               map_of kv ''client_id'' \<noteq> Some (JStr b))"
proof (intro conjI)
  have n: "n = user_joined_msg b u (clock e 1)"
    by (simp add: assms(8) user_joined_msg_def)
  have "connect e websocket b r u s =
           ((register e websocket b r u s)
              \<lparr>outbox := outbox s @ deliveries members (Some b) n @
                 [(websocket, room_joined_msg r b (roster (client_info s) b (map fst members))
                                (clock e 2))]\<rparr>, Returned)"
    unfolding n using assms(1,2,3,7) by (rule connect_all_up)
  then show "connect e websocket b r u s =
           (s\<lparr>active_rooms := (active_rooms s)(r \<mapsto> AList.update b websocket members),
              client_info := (client_info s)(b \<mapsto>
                 \<lparr>room = r, name = u, joined_at = clock e 0\<rparr>),
              outbox := outbox s @ deliveries members (Some b) n @
                 [(websocket,
                   [(''type'', JStr ''room_joined''), (''room_id'', JStr r),
                    (''client_id'', JStr b),
                    (''existing_users'', JArr (roster (client_info s) b (map fst members))),
                    (''timestamp'', JStr (clock e 2))])]\<rparr>, Returned)"
    by (simp add: register_def room_joined_msg_def assms(3))
next
  have mem: "(a, wa) \<in> set members" using assms(4) by (rule map_of_SomeD)
  with assms(6) show "(wa, n) \<in> set (deliveries members (Some b) n)"
    by (auto simp: deliveries_member)
  show "\<forall>w. (w, n) \<in> set (deliveries members (Some b) n) \<longrightarrow>
              (\<exists>c. c \<noteq> b \<and> (c, w) \<in> set members)"
    by (auto simp: deliveries_member)
  from mem have "a \<in> set (map fst members)" by force
  then show "JObj [(''client_id'', JStr a), (''username'', JStr (name ia))]
           \<in> set (roster (client_info s) b (map fst members))"
    using assms(6,5) by (rule roster_member)
  show "\<forall>kv. JObj kv \<in> set (roster (client_info s) b (map fst members)) \<longrightarrow>
               map_of kv ''client_id'' \<noteq> Some (JStr b)"
    using roster_excludes by blast
qed

theorem join_notifies_and_lists_witness:
  "2 \<notin> rejects (all_up ''t2'') \<and> 2 \<notin> down (all_up ''t2'') \<and>
   active_rooms alice_in_lobby ''lobby'' = Some [(''c1'', 1)] \<and>
   map_of [(''c1'', 1::nat)] ''c1'' = Some 1 \<and>
   client_info alice_in_lobby ''c1'' = Some \<lparr>room = ''lobby'', name = ''alice'', joined_at = ''t1''\<rparr> \<and>
   ''c1'' \<noteq> ''c2'' \<and>
   1 \<notin> down (all_up ''t2'') \<and>
   connect (all_up ''t2'') 2 ''c2'' ''lobby'' ''bob'' alice_in_lobby =
     (alice_in_lobby
        \<lparr>active_rooms := (active_rooms alice_in_lobby)(''lobby'' \<mapsto> [(''c1'', 1), (''c2'', 2)]),
         client_info := (client_info alice_in_lobby)(''c2'' \<mapsto>
            \<lparr>room = ''lobby'', name = ''bob'', joined_at = ''t2''\<rparr>),
         outbox := outbox alice_in_lobby @
           [(1, [(''type'', JStr ''user_joined''), (''client_id'', JStr ''c2''),
                 (''username'', JStr ''bob''), (''timestamp'', JStr ''t2'')]),
            (2, [(''type'', JStr ''room_joined''), (''room_id'', JStr ''lobby''),
                 (''client_id'', JStr ''c2''),
                 (''existing_users'',
                  JArr [JObj [(''client_id'', JStr ''c1''), (''username'', JStr ''alice'')]]),
                 (''timestamp'', JStr ''t2'')])]\<rparr>,
      Returned)"
proof -
  let ?i1 = "\<lparr>room = ''lobby'', name = ''alice'', joined_at = ''t1''\<rparr>"
  let ?n = "[(''type'', JStr ''user_joined''), (''client_id'', JStr ''c2''),
             (''username'', JStr ''bob''), (''timestamp'', JStr ''t2'')]"
  have a: "2 \<notin> rejects (all_up ''t2'')" by (simp add: all_up_def)
  have b: "2 \<notin> down (all_up ''t2'')" by (simp add: all_up_def)
  have c: "active_rooms alice_in_lobby ''lobby'' = Some [(''c1'', 1)]" by code_simp
  have d: "map_of [(''c1'', 1::nat)] ''c1'' = Some 1" by simp
  have f: "client_info alice_in_lobby ''c1'' = Some ?i1" by code_simp
  have g: "''c1'' \<noteq> ''c2''" by simp
  have h: "\<forall>(c, w) \<in> set [(''c1'', 1::nat)]. c \<noteq> ''c2'' \<longrightarrow>
       w \<notin> down (all_up ''t2'') \<and> client_info alice_in_lobby c \<noteq> None"
    using f by (simp add: all_up_def)
  have i: "?n = [(''type'', JStr ''user_joined''), (''client_id'', JStr ''c2''),
                 (''username'', JStr ''bob''), (''timestamp'', JStr (clock (all_up ''t2'') 1))]"
    by (simp add: all_up_def)
  have j: "deliveries [(''c1'', 1::nat)] (Some ''c2'') ?n = [(1, ?n)]"
    by (simp add: deliveries_def)
  have k: "roster (client_info alice_in_lobby) ''c2'' (map fst [(''c1'', 1::nat)]) =
             [JObj [(''client_id'', JStr ''c1''), (''username'', JStr ''alice'')]]"
    using f by (simp add: roster_def)
  have l: "clock (all_up ''t2'') 2 = ''t2''" "clock (all_up ''t2'') 0 = ''t2''"
    by (simp_all add: all_up_def)
  have u: "AList.update ''c2'' 2 [(''c1'', 1::nat)] = [(''c1'', 1), (''c2'', 2)]" by simp
  have "connect (all_up ''t2'') 2 ''c2'' ''lobby'' ''bob'' alice_in_lobby =
     (alice_in_lobby
        \<lparr>active_rooms := (active_rooms alice_in_lobby)(''lobby'' \<mapsto>
            AList.update ''c2'' 2 [(''c1'', 1::nat)]),
         client_info := (client_info alice_in_lobby)(''c2'' \<mapsto>
            \<lparr>room = ''lobby'', name = ''bob'', joined_at = clock (all_up ''t2'') 0\<rparr>),
         outbox := outbox alice_in_lobby @ deliveries [(''c1'', 1::nat)] (Some ''c2'') ?n @
           [(2, [(''type'', JStr ''room_joined''), (''room_id'', JStr ''lobby''),
                 (''client_id'', JStr ''c2''),
                 (''existing_users'',
                  JArr (roster (client_info alice_in_lobby) ''c2'' (map fst [(''c1'', 1::nat)]))),
                 (''timestamp'', JStr (clock (all_up ''t2'') 2))])]\<rparr>, Returned)"
    using join_notifies_and_lists [OF a b c d f g h i] by blast
  then have m: "connect (all_up ''t2'') 2 ''c2'' ''lobby'' ''bob'' alice_in_lobby =
     (alice_in_lobby
        \<lparr>active_rooms := (active_rooms alice_in_lobby)(''lobby'' \<mapsto> [(''c1'', 1), (''c2'', 2)]),
         client_info := (client_info alice_in_lobby)(''c2'' \<mapsto>
            \<lparr>room = ''lobby'', name = ''bob'', joined_at = ''t2''\<rparr>),
         outbox := outbox alice_in_lobby @
           [(1, [(''type'', JStr ''user_joined''), (''client_id'', JStr ''c2''),
                 (''username'', JStr ''bob''), (''timestamp'', JStr ''t2'')]),
            (2, [(''type'', JStr ''room_joined''), (''room_id'', JStr ''lobby''),
                 (''client_id'', JStr ''c2''),
                 (''existing_users'',
                  JArr [JObj [(''client_id'', JStr ''c1''), (''username'', JStr ''alice'')]]),
                 (''timestamp'', JStr ''t2'')])]\<rparr>,
      Returned)"
    by (simp only: j k l u append.simps)
  have up: "1 \<notin> down (all_up ''t2'')" by (simp add: all_up_def)
  from a b c d f g up m show ?thesis by blast
qed

section \<open>Claims about the session\<close>

text \<open>
  C8, as stated, fails: both \<^verbatim>\<open>except\<close> clauses call \<^verbatim>\<open>manager.disconnect(client_id)\<close>
  with the client id of the URL, whether or not this connection ever joined. A
  connection opened under the id \<^verbatim>\<open>c1\<close>, which another connection has registered, and
  closed before its first message removes \<^verbatim>\<open>c1\<close> from its room and broadcasts
  \<^verbatim>\<open>user_left\<close> to \<^verbatim>\<open>c2\<close>.
\<close>

theorem first_message_counterexample:
  "await_join (all_up ''t3'') 3 ''c1'' (Failed WebSocketDisconnect) two_in_lobby =
     Some (on_exception (all_up ''t3'') ''c1'' two_in_lobby, Closed) \<and>
   active_rooms two_in_lobby ''lobby'' = Some [(''c1'', 1), (''c2'', 2)] \<and>
   active_rooms (on_exception (all_up ''t3'') ''c1'' two_in_lobby) ''lobby'' = Some [(''c2'', 2)] \<and>
   client_info (on_exception (all_up ''t3'') ''c1'' two_in_lobby) ''c1'' = None \<and>
   outbox (on_exception (all_up ''t3'') ''c1'' two_in_lobby) =
     outbox two_in_lobby @ [(2, user_left_msg ''c1'' ''alice'' ''t3'')]"
proof (intro conjI)
  show "await_join (all_up ''t3'') 3 ''c1'' (Failed WebSocketDisconnect) two_in_lobby =
     Some (on_exception (all_up ''t3'') ''c1'' two_in_lobby, Closed)"
    by (simp add: await_join_def)
  show "active_rooms two_in_lobby ''lobby'' = Some [(''c1'', 1), (''c2'', 2)]" by code_simp
  show "active_rooms (on_exception (all_up ''t3'') ''c1'' two_in_lobby) ''lobby'' = Some [(''c2'', 2)]"
    by code_simp
  show "client_info (on_exception (all_up ''t3'') ''c1'' two_in_lobby) ''c1'' = None"
    by code_simp
  show "outbox (on_exception (all_up ''t3'') ''c1'' two_in_lobby) =
     outbox two_in_lobby @ [(2, user_left_msg ''c1'' ''alice'' ''t3'')]"
    by code_simp
qed

text \<open>
  C8, amended. A first message that has a \<^verbatim>\<open>type\<close> other than \<^verbatim>\<open>join\<close> closes the
  session and leaves registry and transport exactly as they were. A first message
  without a \<^verbatim>\<open>type\<close>, or a receive that fails, closes the session after
  \<^verbatim>\<open>disconnect(client_id)\<close>; when that client id has no record at that moment, this too
  leaves registry and transport exactly as they were.
\<close>

theorem first_message_not_join:
  assumes "message_type r \<noteq> Some (JStr ''join'')"
    and "message_type r \<noteq> None \<or> client_info s c = None"
  shows "await_join e websocket c r s = Some (s, Closed)"
proof -
  have quiet: "client_info s c = None \<Longrightarrow> on_exception e c s = s"
    by (simp add: on_exception_def disconnect_def)
  show ?thesis
  proof (cases r)
    case (Failed x)
    with assms(2) quiet show ?thesis by (simp add: await_join_def)
  next
    case (Data d)
    show ?thesis
    proof (cases d)
      case (JObj kv)
      show ?thesis
      proof (cases "map_of kv ''type''")
        case None
        with Data JObj assms(2) quiet show ?thesis by (simp add: await_join_def)
      next
        case (Some t)
        with Data JObj assms(1) show ?thesis by (simp add: await_join_def)
      qed
    qed (use Data assms(2) quiet in \<open>simp_all add: await_join_def\<close>)
  qed
qed

theorem first_message_not_join_witness:
  "message_type (Data (JObj [(''type'', JStr ''chat''), (''message'', JStr ''hi'')]))
     \<noteq> Some (JStr ''join'') \<and>
   message_type (Data (JObj [(''type'', JStr ''chat''), (''message'', JStr ''hi'')])) \<noteq> None \<and>
   await_join (all_up ''t3'') 3 ''c1''
     (Data (JObj [(''type'', JStr ''chat''), (''message'', JStr ''hi'')])) two_in_lobby =
     Some (two_in_lobby, Closed) \<and>
   message_type (Failed WebSocketDisconnect) \<noteq> Some (JStr ''join'') \<and>
   client_info two_in_lobby ''c9'' = None \<and>
   await_join (all_up ''t3'') 3 ''c9'' (Failed WebSocketDisconnect) two_in_lobby =
     Some (two_in_lobby, Closed)"
proof -
  let ?r = "Data (JObj [(''type'', JStr ''chat''), (''message'', JStr ''hi'')])"
  have a: "message_type ?r \<noteq> Some (JStr ''join'')" by simp
  have b: "message_type ?r \<noteq> None" by simp
  then have b': "message_type ?r \<noteq> None \<or> client_info two_in_lobby ''c1'' = None" by blast
  have c: "message_type (Failed WebSocketDisconnect) \<noteq> Some (JStr ''join'')" by simp
  have d: "client_info two_in_lobby ''c9'' = None" by code_simp
  then have d': "message_type (Failed WebSocketDisconnect) \<noteq> None \<or>
      client_info two_in_lobby ''c9'' = None" by blast
  from first_message_not_join [OF a b', of "all_up ''t3''" 3]
       first_message_not_join [OF c d', of "all_up ''t3''" 3] a b c d
  show ?thesis by blast
qed

text \<open>
  C9. The \<^verbatim>\<open>ping\<close> branch sends \<^verbatim>\<open>pong\<close> with a timestamp to the websocket of the
  session and to nobody else: \<^verbatim>\<open>active_rooms\<close> and \<^verbatim>\<open>client_info\<close> are the same after
  it, whatever the send did; what it does is the same whatever \<^verbatim>\<open>active_rooms\<close> and
  \<^verbatim>\<open>client_info\<close> hold; and when the websocket accepts the send, the turn ends with the
  session active and only the \<^verbatim>\<open>pong\<close> added to the transport.
\<close>

theorem ping_leaves_registry:
  assumes "map_of kv ''type'' = Some (JStr ''ping'')"
  shows "active_rooms (fst (dispatch e websocket c (JObj kv) s)) = active_rooms s \<and>
         client_info (fst (dispatch e websocket c (JObj kv) s)) = client_info s \<and>
         dispatch e websocket c (JObj kv) (s\<lparr>active_rooms := ar, client_info := ci\<rparr>) =
           ((fst (dispatch e websocket c (JObj kv) s))\<lparr>active_rooms := ar, client_info := ci\<rparr>,
            snd (dispatch e websocket c (JObj kv) s)) \<and>
         (websocket \<notin> down e \<longrightarrow>
            active_step e websocket c (Data (JObj kv)) s =
              (s\<lparr>outbox := outbox s @ [(websocket, pong_msg (clock e 0))]\<rparr>, Active)) \<and>
         map_of (pong_msg (clock e 0)) ''timestamp'' = Some (JStr (clock e 0))"
proof -
  have d: "\<And>s. dispatch e websocket c (JObj kv) s = send_json e websocket (pong_msg (clock e 0)) s"
    using assms by (simp add: dispatch_def dget_def)
  show ?thesis
    by (simp add: d active_step_def send_json_def pong_msg_def)
qed

theorem ping_leaves_registry_witness:
  "map_of [(''type'', JStr ''ping'')] ''type'' = Some (JStr ''ping'') \<and>
   1 \<notin> down (all_up ''t3'') \<and>
   active_step (all_up ''t3'') 1 ''c1'' (Data (JObj [(''type'', JStr ''ping'')])) two_in_lobby =
     (two_in_lobby\<lparr>outbox := outbox two_in_lobby @
        [(1, [(''type'', JStr ''pong''), (''timestamp'', JStr ''t3'')])]\<rparr>, Active)"
proof -
  have a: "map_of [(''type'', JStr ''ping'')] ''type'' = Some (JStr ''ping'')" by simp
  have b: "1 \<notin> down (all_up ''t3'')" by (simp add: all_up_def)
  have c: "pong_msg (clock (all_up ''t3'') 0) = [(''type'', JStr ''pong''), (''timestamp'', JStr ''t3'')]"
    by (simp add: pong_msg_def all_up_def)
  have "1 \<notin> down (all_up ''t3'') \<longrightarrow>
     active_step (all_up ''t3'') 1 ''c1'' (Data (JObj [(''type'', JStr ''ping'')])) two_in_lobby =
     (two_in_lobby\<lparr>outbox := outbox two_in_lobby @
        [(1, pong_msg (clock (all_up ''t3'') 0))]\<rparr>, Active)"
    using ping_leaves_registry [OF a, of "all_up ''t3''" 1 "''c1''" two_in_lobby] by blast
  with b have "active_step (all_up ''t3'') 1 ''c1'' (Data (JObj [(''type'', JStr ''ping'')])) two_in_lobby =
     (two_in_lobby\<lparr>outbox := outbox two_in_lobby @
        [(1, pong_msg (clock (all_up ''t3'') 0))]\<rparr>, Active)" by blast
  then have "active_step (all_up ''t3'') 1 ''c1'' (Data (JObj [(''type'', JStr ''ping'')])) two_in_lobby =
     (two_in_lobby\<lparr>outbox := outbox two_in_lobby @
        [(1, [(''type'', JStr ''pong''), (''timestamp'', JStr ''t3'')])]\<rparr>, Active)"
    by (simp only: c)
  with a b show ?thesis by blast
qed

section \<open>Records and listings agree\<close>

text \<open>
  The statements about relay and chat speak of a client that is listed in the room its
  record names. That is the case for every client with a record, in every state reached
  from the empty registry by Joins and Leaves none of whose Leaves raised.
\<close>

lemma records_listed_connect:
  assumes inv: "records_listed s"
  shows "records_listed (fst (connect e w c r u s))"
proof (cases "w \<in> rejects e")
  case True
  with inv show ?thesis by (simp add: connect_def)
next
  case False
  let ?old = "case active_rooms s r of None \<Rightarrow> [] | Some ms \<Rightarrow> ms"
  show ?thesis
    unfolding records_listed_def connect_rooms connect_info register_rooms register_info
  proof (intro allI impI)
    fix c' info'
    assume rec: "(if w \<in> rejects e then client_info s
                  else (client_info s)(c \<mapsto> \<lparr>room = r, name = u, joined_at = clock e 0\<rparr>)) c'
                 = Some info'"
    show "\<exists>members w'. (if w \<in> rejects e then active_rooms s
                          else (active_rooms s)(r \<mapsto> AList.update c w ?old)) (room info')
                         = Some members \<and> map_of members c' = Some w'"
    proof (cases "c' = c")
      case True
      with rec False have "room info' = r" by auto
      with False True show ?thesis by (simp add: AList.update_conv')
    next
      case ne: False
      with rec False have "client_info s c' = Some info'" by simp
      with inv obtain ms w' where listed: "active_rooms s (room info') = Some ms" "map_of ms c' = Some w'"
        unfolding records_listed_def by blast
      show ?thesis
      proof (cases "room info' = r")
        case True
        with listed have "map_of (AList.update c w ?old) c' = Some w'"
          using ne by (simp add: AList.update_conv')
        with False True show ?thesis by simp
      next
        case other: False
        with False listed show ?thesis by simp
      qed
    qed
  qed
qed

lemma disconnect_returned_info:
  "snd (disconnect e c s) = Returned \<Longrightarrow> client_info (fst (disconnect e c s)) c = None"
  by (auto simp: disconnect_def forget_client_def cleanup_room_def
           split: option.splits prod.splits outcome.splits if_splits)

lemma records_listed_disconnect:
  assumes inv: "records_listed s" and ret: "snd (disconnect e c s) = Returned"
  shows "records_listed (fst (disconnect e c s))"
  unfolding records_listed_def
proof (intro allI impI)
  fix c' info'
  assume rec: "client_info (fst (disconnect e c s)) c' = Some info'"
  with disconnect_returned_info [OF ret] have ne: "c' \<noteq> c" by auto
  with rec have "client_info s c' = Some info'" by (simp add: disconnect_info_other)
  with inv obtain ms w' where listed: "active_rooms s (room info') = Some ms" "map_of ms c' = Some w'"
    unfolding records_listed_def by blast
  have kept: "map_of (AList.delete c ms) c' = Some w'"
    using listed(2) ne by simp
  then have nonempty: "AList.delete c ms \<noteq> []" by auto
  have "active_rooms (fst (disconnect e c s)) (room info') = Some ms \<or>
        active_rooms (fst (disconnect e c s)) (room info') = Some (AList.delete c ms)"
    unfolding disconnect_rooms using listed(1) nonempty
    by (auto split: option.splits)
  with listed(2) kept
  show "\<exists>members w. active_rooms (fst (disconnect e c s)) (room info') = Some members \<and>
          map_of members c' = Some w"
    by blast
qed

lemma records_listed_run:
  "records_listed s \<Longrightarrow> leaves_returned ops s \<Longrightarrow> records_listed (run ops s)"
proof (induction ops arbitrary: s)
  case Nil
  then show ?case by simp
next
  case (Cons p ops)
  obtain e a where p: "p = (e, a)" by (cases p)
  show ?case
  proof (cases a)
    case (Join w c r u)
    with Cons.prems p have "leaves_returned ops (step e a s)" by simp
    moreover from Cons.prems(1) Join have "records_listed (step e a s)"
      by (simp add: records_listed_connect)
    ultimately have "records_listed (run ops (step e a s))" by (simp add: Cons.IH)
    with p show ?thesis by simp
  next
    case (Leave c)
    with Cons.prems p have ret: "snd (disconnect e c s) = Returned"
      and rest: "leaves_returned ops (step e a s)" by simp_all
    from Cons.prems(1) ret Leave have "records_listed (step e a s)"
      by (simp add: records_listed_disconnect)
    with rest have "records_listed (run ops (step e a s))" by (simp add: Cons.IH)
    with p show ?thesis by simp
  qed
qed

lemma registered_is_listed:
  assumes "leaves_returned ops empty_registry"
    and "client_info (run ops empty_registry) c = Some info"
  shows "\<exists>members w. active_rooms (run ops empty_registry) (room info) = Some members \<and>
           map_of members c = Some w"
proof -
  have "records_listed empty_registry"
    by (simp add: records_listed_def empty_registry_def)
  then have "records_listed (run ops empty_registry)"
    using assms(1) by (rule records_listed_run)
  with assms(2) show ?thesis unfolding records_listed_def by blast
qed

text \<open>
  The statement about Join speaks of members that have a record. That is the case for
  every member of every room, in every state reached from the empty registry by Joins and
  Leaves whose Joins used client ids without a record.
\<close>

lemma member_is_recorded:
  assumes "unregistered_joins ops empty_registry"
    and "active_rooms (run ops empty_registry) r = Some members" and "c \<in> fst ` set members"
  shows "\<exists>info. client_info (run ops empty_registry) c = Some info \<and> room info = r"
proof -
  have "members_recorded (run ops empty_registry)"
    using members_recorded_empty assms(1) by (rule members_recorded_run)
  with assms(2,3) show ?thesis unfolding members_recorded_def by blast
qed

end
